theory Spec2Isabelle
  imports Complex_Main
begin

section \<open>Data model\<close>

text \<open>
  The bookstore backend keeps its state in a relational store reached through Prisma.
  Each table is a list of rows; \<open>findUnique\<close> is a search for the row with the given
  key, \<open>create\<close> appends a row and fails with Prisma's P2002 when the key is taken,
  \<open>update\<close> rewrites the rows with the given key and fails with P2025 when there is
  none.  Identifiers are strings.  \<open>uuidv4()\<close> and \<open>new Date()\<close> are inputs of the
  operations: the identifier drawn and the time read.

  The Decimal columns (\<open>price\<close>, \<open>priceAtTime\<close>, \<open>subTotal\<close>, \<open>totalAmount\<close>,
  \<open>amount\<close>) hold decimal fractions, which are rational numbers; a price may have a
  fractional part.  The Int columns (\<open>stockQuantity\<close>, \<open>soldNumber\<close>,
  \<open>quantity\<close>) hold 32-bit signed integers: the store refuses the write of a value
  outside that range with P2020.
\<close>

type_synonym ident = string
type_synonym money = rat
type_synonym time = nat

datatype OrderStatus = pending | processing | completed | canceled

datatype PaymentStatus = pay_processing | pay_paid | pay_failed

datatype PaymentMethod = qr_code | credit_card | cod

datatype Role = role_user | role_author | role_admin

datatype prisma_code = P2002 | P2003 | P2020 | P2025

text \<open>
  The services throw plain \<open>Error\<close>s told apart by their message; one constructor per
  message, with \<open>Prisma c\<close> for a \<open>PrismaClientKnownRequestError\<close> of code \<open>c\<close>.
\<close>

datatype error =
    UserNotFound
  | AddressNotFound
  | OrderMustHaveItem
  | BookIdNotFound ident
  | NotEnoughStockFor string int
  | InvalidQuantityFor string
  | InvalidUserOrBook
  | OrderNotFound
  | OnlyPendingCanBeCanceled
  | PaymentAlreadyExists
  | AmountDoesNotMatch money money
  | InvalidOrderID
  | PaymentNotFound
  | BookNotFound
  | NotEnoughStock int
  | FailedToRetrieveUpdatedCart
  | InvalidBookID
  | EmailAlreadyExists
  | RegistrationFailed
  | Prisma prisma_code

record Book =
  bookID :: ident
  title :: string
  price :: money
  stockQuantity :: int
  soldNumber :: int

record User =
  userID :: ident
  name :: string
  phone :: "string option"
  gender :: "string option"
  birthDate :: "time option"
  user_authID :: ident

record Address =
  addressID :: ident
  address_userID :: ident
  specificAddress :: "string option"
  ward :: string
  city :: string

record OrderBook =
  ob_bookID :: ident
  priceAtTime :: money
  quantity :: int
  subTotal :: money

record Order =
  orderID :: ident
  order_userID :: ident
  status :: OrderStatus
  totalAmount :: money
  addressSnapshot :: string
  phoneSnapshot :: string
  order_books :: "OrderBook list"

record Payment =
  paymentID :: ident
  payment_orderID :: ident
  payment_status :: PaymentStatus
  payment_method :: PaymentMethod
  amount :: money
  paidAt :: "time option"

record Cart =
  cartID :: ident
  cart_userID :: ident

record CartBook =
  cb_cartID :: ident
  cb_bookID :: ident
  cb_quantity :: int
  isSelected :: bool
  addedAt :: time

record Authentication =
  authID :: ident
  email :: string
  pass :: string
  role :: Role

record Author =
  authorID :: ident
  author_name :: string
  author_authID :: ident

record Admin =
  adminID :: ident
  admin_authID :: ident

record db =
  authentications :: "Authentication list"
  users :: "User list"
  authors :: "Author list"
  admins :: "Admin list"
  addresses :: "Address list"
  books :: "Book list"
  carts :: "Cart list"
  cartBooks :: "CartBook list"
  orders :: "Order list"
  payments :: "Payment list"

subsection \<open>Prisma's row operations\<close>

definition findUnique :: "('r \<Rightarrow> 'k) \<Rightarrow> 'k \<Rightarrow> 'r list \<Rightarrow> 'r option" where
  "findUnique key k rows = find (\<lambda>r. key r = k) rows"

definition create_row :: "('r \<Rightarrow> 'k) \<Rightarrow> 'r \<Rightarrow> 'r list \<Rightarrow> error + 'r list" where
  "create_row key r rows =
     (if key r \<in> set (map key rows) then Inl (Prisma P2002) else Inr (rows @ [r]))"

definition update_row :: "('r \<Rightarrow> 'k) \<Rightarrow> 'k \<Rightarrow> ('r \<Rightarrow> 'r) \<Rightarrow> 'r list \<Rightarrow> error + 'r list" where
  "update_row key k f rows =
     (if k \<in> set (map key rows)
      then Inr (map (\<lambda>r. if key r = k then f r else r) rows)
      else Inl (Prisma P2025))"

definition Int_column :: "int \<Rightarrow> bool" where
  "Int_column v = (- 2147483648 \<le> v \<and> v \<le> 2147483647)"

text \<open>
  An update of book rows: the Int columns of the rows it writes are checked first.
\<close>

definition update_book :: "ident \<Rightarrow> (Book \<Rightarrow> Book) \<Rightarrow> Book list \<Rightarrow> error + Book list" where
  "update_book k f bs =
     (if list_all (\<lambda>b. Int_column (stockQuantity (f b)) \<and> Int_column (soldNumber (f b)))
           (filter (\<lambda>b. bookID b = k) bs)
      then update_row bookID k f bs
      else Inl (Prisma P2020))"

text \<open>
  \<open>prisma.$transaction\<close>: the body works on the store it is given and either returns a
  result with the store it has written, which is committed, or throws, and then the
  store is the one from before the transaction.
\<close>

definition transaction :: "(db \<Rightarrow> error + ('a \<times> db)) \<Rightarrow> db \<Rightarrow> (error + 'a) \<times> db" where
  "transaction body d =
     (case body d of Inl e \<Rightarrow> (Inl e, d) | Inr (r, d') \<Rightarrow> (Inr r, d'))"

definition catch_with :: "(error \<Rightarrow> error) \<Rightarrow> (error + 'a) \<times> db \<Rightarrow> (error + 'a) \<times> db" where
  "catch_with h res = (case fst res of Inl e \<Rightarrow> (Inl (h e), snd res) | Inr r \<Rightarrow> res)"

section \<open>Order service\<close>

record OrderItemInput =
  item_bookID :: ident
  item_quantity :: int

record OrderCreateInput =
  oc_userID :: ident
  oc_addressID :: ident
  oc_phone :: string
  oc_items :: "OrderItemInput list"

text \<open>The template string of the address snapshot; an empty or null specific address is falsy.\<close>

definition format_addressSnapshot :: "Address \<Rightarrow> string" where
  "format_addressSnapshot address =
     (case specificAddress address of
        None \<Rightarrow> ''''
      | Some s \<Rightarrow> (if s = '''' then '''' else s @ '', ''))
     @ ward address @ '', '' @ city address"

text \<open>
  \<open>createOrder\<close> computes the amounts of an order with JavaScript numbers, which are
  IEEE doubles: \<open>Number(book.price) * item.quantity\<close> for the subtotal of a line and
  \<open>totalAmount += subTotal\<close> for the total, starting from 0; Prisma then converts
  these numbers to the Decimal columns of the order, whose precision and scale the
  Prisma schema declares (it is not among the sources), and the store refuses a number
  that does not fit.  The three operations are parameters of the model, so that what
  is proved of \<open>createOrder\<close> holds for the arithmetic of doubles and for every scale of
  the columns.  \<open>exact\<close> is the arithmetic on amounts that doubles represent exactly
  and that the columns keep as they are, such as the whole amounts of the seed data.
\<close>

record numerics =
  js_times :: "money \<Rightarrow> int \<Rightarrow> money"
  js_plus :: "money \<Rightarrow> money \<Rightarrow> money"
  to_Decimal :: "money \<Rightarrow> money option"

definition exact :: numerics where
  "exact = \<lparr> js_times = (\<lambda>p q. p * of_int q), js_plus = (\<lambda>a b. a + b), to_Decimal = Some \<rparr>"

text \<open>
  The loop over the requested items of \<open>createOrder\<close>, with its three mutable
  variables: the book table of the transaction, \<open>totalAmount\<close> and \<open>orderBooks\<close>.
  The stock check comes before the check of the sign of the quantity, as in the source.
\<close>

fun process_items ::
  "numerics \<Rightarrow> Book list \<Rightarrow> OrderItemInput list \<Rightarrow> money \<Rightarrow> OrderBook list
     \<Rightarrow> error + (Book list \<times> money \<times> OrderBook list)" where
  "process_items nm bs [] tot obs = Inr (bs, tot, obs)"
| "process_items nm bs (item # rest) tot obs =
     (case findUnique bookID (item_bookID item) bs of
        None \<Rightarrow> Inl (BookIdNotFound (item_bookID item))
      | Some book \<Rightarrow>
          if item_quantity item > stockQuantity book
            then Inl (NotEnoughStockFor (title book) (stockQuantity book))
          else if item_quantity item \<le> 0
            then Inl (InvalidQuantityFor (title book))
          else
            let sub = js_times nm (price book) (item_quantity item);
                line = \<lparr> ob_bookID = item_bookID item, priceAtTime = price book,
                         quantity = item_quantity item, subTotal = sub \<rparr>
            in case update_book (item_bookID item)
                      (\<lambda>b. b\<lparr> stockQuantity := stockQuantity book - item_quantity item,
                               soldNumber := soldNumber book + item_quantity item \<rparr>) bs of
                 Inl e \<Rightarrow> Inl e
               | Inr bs' \<Rightarrow> process_items nm bs' rest (js_plus nm tot sub) (obs @ [line]))"

text \<open>
  The line that \<open>order.create\<close> stores for an element of \<open>orderBooks\<close>: the price is
  the Decimal read from the book, the subtotal is converted, the quantity goes to an Int
  column.  \<open>those\<close> gives the stored lines when every line is accepted.
\<close>

definition stored_line :: "numerics \<Rightarrow> OrderBook \<Rightarrow> OrderBook option" where
  "stored_line nm l =
     (if Int_column (quantity l)
      then map_option (\<lambda>s. l\<lparr> subTotal := s \<rparr>) (to_Decimal nm (subTotal l))
      else None)"

definition createOrder_body :: "numerics \<Rightarrow> OrderCreateInput \<Rightarrow> ident \<Rightarrow> db \<Rightarrow> error + (Order \<times> db)" where
  "createOrder_body nm orderData newID tx =
     (case findUnique userID (oc_userID orderData) (users tx) of
        None \<Rightarrow> Inl UserNotFound
      | Some user \<Rightarrow>
          (case find (\<lambda>addr. addressID addr = oc_addressID orderData)
                  (filter (\<lambda>addr. address_userID addr = userID user) (addresses tx)) of
             None \<Rightarrow> Inl AddressNotFound
           | Some address \<Rightarrow>
               if oc_items orderData = [] then Inl OrderMustHaveItem
               else
                 (case process_items nm (books tx) (oc_items orderData) 0 [] of
                    Inl e \<Rightarrow> Inl e
                  | Inr (bs, tot, obs) \<Rightarrow>
                      (case (to_Decimal nm tot, those (map (stored_line nm) obs)) of
                         (Some stored_total, Some stored_lines) \<Rightarrow>
                           let order = \<lparr> orderID = newID, order_userID = oc_userID orderData,
                                          status = pending, totalAmount = stored_total,
                                          addressSnapshot = format_addressSnapshot address,
                                          phoneSnapshot = oc_phone orderData,
                                          order_books = stored_lines \<rparr>
                           in (case create_row orderID order (orders tx) of
                                 Inl e \<Rightarrow> Inl e
                               | Inr os \<Rightarrow> Inr (order, tx\<lparr> books := bs, orders := os \<rparr>))
                       | _ \<Rightarrow> Inl (Prisma P2020)))))"

text \<open>
  The \<open>catch\<close> of \<open>createOrder\<close> turns P2003 into "Invalid userID or bookID" and
  rethrows every other error as it is.
\<close>

definition createOrder_catch :: "error \<Rightarrow> error" where
  "createOrder_catch e = (case e of Prisma P2003 \<Rightarrow> InvalidUserOrBook | _ \<Rightarrow> e)"

definition createOrder :: "numerics \<Rightarrow> db \<Rightarrow> OrderCreateInput \<Rightarrow> ident \<Rightarrow> (error + Order) \<times> db" where
  "createOrder nm d orderData newID =
     catch_with createOrder_catch (transaction (createOrder_body nm orderData newID) d)"

text \<open>
  \<open>cancelOrder\<close>: the loop over the lines of the order increments the stock and
  decrements the sold count of each line's book by the line's quantity.
\<close>

fun restore_stock :: "Book list \<Rightarrow> OrderBook list \<Rightarrow> error + Book list" where
  "restore_stock bs [] = Inr bs"
| "restore_stock bs (orderBook # rest) =
     (case update_book (ob_bookID orderBook)
             (\<lambda>b. b\<lparr> stockQuantity := stockQuantity b + quantity orderBook,
                      soldNumber := soldNumber b - quantity orderBook \<rparr>) bs of
        Inl e \<Rightarrow> Inl e
      | Inr bs' \<Rightarrow> restore_stock bs' rest)"

definition cancelOrder_body :: "ident \<Rightarrow> db \<Rightarrow> error + (Order \<times> db)" where
  "cancelOrder_body oid tx =
     (case findUnique orderID oid (orders tx) of
        None \<Rightarrow> Inl OrderNotFound
      | Some order \<Rightarrow>
          if status order \<noteq> pending then Inl OnlyPendingCanBeCanceled
          else
            (case restore_stock (books tx) (order_books order) of
               Inl e \<Rightarrow> Inl e
             | Inr bs \<Rightarrow>
                 (case update_row orderID oid (\<lambda>row. row\<lparr> status := canceled \<rparr>) (orders tx) of
                    Inl e \<Rightarrow> Inl e
                  | Inr os \<Rightarrow> Inr (order\<lparr> status := canceled \<rparr>, tx\<lparr> books := bs, orders := os \<rparr>))))"

definition cancelOrder :: "db \<Rightarrow> ident \<Rightarrow> (error + Order) \<times> db" where
  "cancelOrder d oid = transaction (cancelOrder_body oid) d"

subsection \<open>Auxiliary notions for the order properties\<close>

text \<open>
  The quantity an order request, or the lines of an order, ask of one book, and a book
  row with that quantity moved from the stock to the sold count.
\<close>

definition requested_qty :: "OrderItemInput list \<Rightarrow> ident \<Rightarrow> int" where
  "requested_qty items k = sum_list (map item_quantity (filter (\<lambda>i. item_bookID i = k) items))"

definition ordered_qty :: "OrderBook list \<Rightarrow> ident \<Rightarrow> int" where
  "ordered_qty ls k = sum_list (map quantity (filter (\<lambda>l. ob_bookID l = k) ls))"

definition sell :: "int \<Rightarrow> Book \<Rightarrow> Book" where
  "sell n b = b\<lparr> stockQuantity := stockQuantity b - n, soldNumber := soldNumber b + n \<rparr>"

text \<open>
  No book has a negative stock; and no line of a pending order, the only kind that
  \<open>cancelOrder\<close> accepts, has a negative quantity.  The lines of the orders are written
  by \<open>createOrder\<close>, after its check of the sign of the quantity (and by the seed, with
  positive quantities), so the second holds in every store the services reach.
\<close>

definition stock_nonneg :: "db \<Rightarrow> bool" where
  "stock_nonneg d = list_all (\<lambda>b. 0 \<le> stockQuantity b) (books d)"

definition pending_lines_nonneg :: "db \<Rightarrow> bool" where
  "pending_lines_nonneg d =
     list_all (\<lambda>row. status row = pending \<longrightarrow> list_all (\<lambda>l. 0 \<le> quantity l) (order_books row))
       (orders d)"

text \<open>Sequences of order creations and cancellations, each one a transaction of its own.\<close>

datatype order_op = Create OrderCreateInput ident | Cancel ident

fun apply_op :: "numerics \<Rightarrow> db \<Rightarrow> order_op \<Rightarrow> db" where
  "apply_op nm d (Create orderData newID) = snd (createOrder nm d orderData newID)"
| "apply_op nm d (Cancel oid) = snd (cancelOrder d oid)"

definition run_ops :: "numerics \<Rightarrow> db \<Rightarrow> order_op list \<Rightarrow> db" where
  "run_ops nm d ops = foldl (apply_op nm) d ops"

text \<open>
  The requests that the creation of an order has to refuse: an unknown user, an address
  that is not one of the user's, no item, or an item naming a missing book, a quantity
  that is not positive, or a quantity above the stock of its book.
\<close>

definition bad_order_request :: "db \<Rightarrow> OrderCreateInput \<Rightarrow> bool" where
  "bad_order_request d orderData =
     ((case findUnique userID (oc_userID orderData) (users d) of
         None \<Rightarrow> True
       | Some user \<Rightarrow>
           find (\<lambda>addr. addressID addr = oc_addressID orderData)
             (filter (\<lambda>addr. address_userID addr = userID user) (addresses d)) = None)
      \<or> oc_items orderData = []
      \<or> list_ex (\<lambda>item.
            case findUnique bookID (item_bookID item) (books d) of
              None \<Rightarrow> True
            | Some book \<Rightarrow> item_quantity item \<le> 0 \<or> item_quantity item > stockQuantity book)
           (oc_items orderData))"

text \<open>
  The book table as the store keeps it: \<open>bookID\<close> is its key, and the Int columns
  hold 32-bit values.
\<close>

definition book_table :: "Book list \<Rightarrow> bool" where
  "book_table bs =
     (distinct (map bookID bs)
      \<and> list_all (\<lambda>b. Int_column (stockQuantity b) \<and> Int_column (soldNumber b)) bs)"

subsection \<open>A small store for the examples\<close>

definition shop :: db where
  "shop =
     \<lparr> authentications =
         [\<lparr> authID = ''auth-001'', email = ''an@example.com'', pass = ''$2b$12$h'', role = role_user \<rparr>],
       users =
         [\<lparr> userID = ''user-001'', name = ''An'', phone = Some ''0901111111'', gender = None,
            birthDate = None, user_authID = ''auth-001'' \<rparr>],
       authors = [],
       admins = [],
       addresses =
         [\<lparr> addressID = ''addr-001'', address_userID = ''user-001'',
            specificAddress = Some ''123 Pho Hue'', ward = ''Hai Ba Trung'', city = ''Ha Noi'' \<rparr>],
       books =
         [\<lparr> bookID = ''book-001'', title = ''Dac Nhan Tam'', price = 100000,
            stockQuantity = 50, soldNumber = 10 \<rparr>,
          \<lparr> bookID = ''book-002'', title = ''Nha Gia Kim'', price = 120000,
            stockQuantity = 3, soldNumber = 0 \<rparr>],
       carts = [\<lparr> cartID = ''cart-001'', cart_userID = ''user-001'' \<rparr>],
       cartBooks =
         [\<lparr> cb_cartID = ''cart-001'', cb_bookID = ''book-002'', cb_quantity = 2,
            isSelected = False, addedAt = 5 \<rparr>],
       orders = [],
       payments = [] \<rparr>"

definition request_two :: OrderCreateInput where
  "request_two =
     \<lparr> oc_userID = ''user-001'', oc_addressID = ''addr-001'', oc_phone = ''0901111111'',
       oc_items = [\<lparr> item_bookID = ''book-001'', item_quantity = 2 \<rparr>] \<rparr>"

definition request_too_many :: OrderCreateInput where
  "request_too_many =
     \<lparr> oc_userID = ''user-001'', oc_addressID = ''addr-001'', oc_phone = ''0901111111'',
       oc_items = [\<lparr> item_bookID = ''book-001'', item_quantity = 2 \<rparr>,
                   \<lparr> item_bookID = ''book-002'', item_quantity = 100 \<rparr>] \<rparr>"

text \<open>The order that the first request creates in \<open>shop\<close>, and the store after it.\<close>

definition order_100 :: Order where
  "order_100 =
     \<lparr> orderID = ''order-100'', order_userID = ''user-001'', status = pending,
       totalAmount = 200000, addressSnapshot = ''123 Pho Hue, Hai Ba Trung, Ha Noi'',
       phoneSnapshot = ''0901111111'',
       order_books = [\<lparr> ob_bookID = ''book-001'', priceAtTime = 100000,
                        quantity = 2, subTotal = 200000 \<rparr>] \<rparr>"

definition shop_ordered :: db where
  "shop_ordered =
     shop \<lparr> books :=
              [\<lparr> bookID = ''book-001'', title = ''Dac Nhan Tam'', price = 100000,
                 stockQuantity = 48, soldNumber = 12 \<rparr>,
               \<lparr> bookID = ''book-002'', title = ''Nha Gia Kim'', price = 120000,
                 stockQuantity = 3, soldNumber = 0 \<rparr>],
            orders := [order_100] \<rparr>"

definition shop_canceled :: db where
  "shop_canceled = shop \<lparr> orders := [order_100 \<lparr> status := canceled \<rparr>] \<rparr>"

text \<open>The store with the order, after its book has been restocked to the brim.\<close>

definition shop_full_stock :: db where
  "shop_full_stock =
     shop_ordered \<lparr> books :=
              [\<lparr> bookID = ''book-001'', title = ''Dac Nhan Tam'', price = 100000,
                 stockQuantity = 2147483646, soldNumber = 12 \<rparr>,
               \<lparr> bookID = ''book-002'', title = ''Nha Gia Kim'', price = 120000,
                 stockQuantity = 3, soldNumber = 0 \<rparr>] \<rparr>"

text \<open>The store with the order, after the other book has been restocked.\<close>

definition shop_restocked :: db where
  "shop_restocked =
     shop_ordered \<lparr> books :=
              [\<lparr> bookID = ''book-001'', title = ''Dac Nhan Tam'', price = 100000,
                 stockQuantity = 48, soldNumber = 12 \<rparr>,
               \<lparr> bookID = ''book-002'', title = ''Nha Gia Kim'', price = 250001 / 2,
                 stockQuantity = 9, soldNumber = 0 \<rparr>] \<rparr>"

section \<open>Payment service\<close>

record PaymentCreateInput =
  pc_orderID :: ident
  pc_method :: PaymentMethod
  pc_amount :: money

text \<open>
  The payment table has two unique columns, \<open>paymentID\<close> and \<open>orderID\<close> (both are
  keys of a \<open>findUnique\<close>), so a row that repeats either is refused with P2002.
\<close>

definition create_payment :: "Payment \<Rightarrow> Payment list \<Rightarrow> error + Payment list" where
  "create_payment p rows =
     (if payment_orderID p \<in> set (map payment_orderID rows) then Inl (Prisma P2002)
      else create_row paymentID p rows)"

definition createPayment_body :: "PaymentCreateInput \<Rightarrow> ident \<Rightarrow> db \<Rightarrow> error + (Payment \<times> db)" where
  "createPayment_body paymentData newID tx =
     (case findUnique orderID (pc_orderID paymentData) (orders tx) of
        None \<Rightarrow> Inl OrderNotFound
      | Some order \<Rightarrow>
          (case findUnique payment_orderID (pc_orderID paymentData) (payments tx) of
             Some existingPayment \<Rightarrow> Inl PaymentAlreadyExists
           | None \<Rightarrow>
               if pc_amount paymentData \<noteq> totalAmount order
               then Inl (AmountDoesNotMatch (pc_amount paymentData) (totalAmount order))
               else
                 let payment = \<lparr> paymentID = newID, payment_orderID = pc_orderID paymentData,
                                   payment_status = pay_processing, payment_method = pc_method paymentData,
                                   amount = pc_amount paymentData, paidAt = None \<rparr>
                 in case create_payment payment (payments tx) of
                      Inl e \<Rightarrow> Inl e
                    | Inr ps \<Rightarrow> Inr (payment, tx\<lparr> payments := ps \<rparr>)))"

definition createPayment_catch :: "error \<Rightarrow> error" where
  "createPayment_catch e =
     (case e of Prisma P2002 \<Rightarrow> PaymentAlreadyExists | Prisma P2003 \<Rightarrow> InvalidOrderID | _ \<Rightarrow> e)"

definition createPayment :: "db \<Rightarrow> PaymentCreateInput \<Rightarrow> ident \<Rightarrow> (error + Payment) \<times> db" where
  "createPayment d paymentData newID =
     catch_with createPayment_catch (transaction (createPayment_body paymentData newID) d)"

text \<open>
  \<open>updatePaymentStatus\<close> writes through the global client, outside any transaction:
  the payment is updated first and stays updated when the update of the order throws.
  \<open>now\<close> is the time \<open>new Date()\<close> reads.
\<close>

definition updatePaymentStatus_catch :: "error \<Rightarrow> error" where
  "updatePaymentStatus_catch e = (case e of Prisma P2025 \<Rightarrow> PaymentNotFound | _ \<Rightarrow> e)"

definition updateData :: "PaymentStatus \<Rightarrow> time \<Rightarrow> Payment \<Rightarrow> Payment" where
  "updateData newStatus now p =
     (if newStatus = pay_paid then p\<lparr> payment_status := newStatus, paidAt := Some now \<rparr>
      else p\<lparr> payment_status := newStatus \<rparr>)"

definition updatePaymentStatus :: "db \<Rightarrow> ident \<Rightarrow> PaymentStatus \<Rightarrow> time \<Rightarrow> (error + Payment) \<times> db" where
  "updatePaymentStatus d pid newStatus now =
     catch_with updatePaymentStatus_catch
       (case update_row paymentID pid (updateData newStatus now) (payments d) of
          Inl e \<Rightarrow> (Inl e, d)
        | Inr ps \<Rightarrow>
            (case findUnique paymentID pid ps of
               None \<Rightarrow> (Inl (Prisma P2025), d)
             | Some payment \<Rightarrow>
                 if newStatus = pay_paid then
                   (case update_row orderID (payment_orderID payment)
                           (\<lambda>row. row\<lparr> status := completed \<rparr>) (orders d) of
                      Inl e \<Rightarrow> (Inl e, d\<lparr> payments := ps \<rparr>)
                    | Inr os \<Rightarrow> (Inr payment, d\<lparr> payments := ps, orders := os \<rparr>))
                 else (Inr payment, d\<lparr> payments := ps \<rparr>)))"

text \<open>
  The foreign key of a payment: its \<open>orderID\<close> names an order (the \<open>catch\<close> of
  \<open>createPayment\<close> expects P2003 for an invalid \<open>orderID\<close>).
\<close>

definition payment_orders_exist :: "db \<Rightarrow> bool" where
  "payment_orders_exist d =
     list_all (\<lambda>p. payment_orderID p \<in> set (map orderID (orders d))) (payments d)"

subsection \<open>Stores with payments, for the examples\<close>

definition payment_100 :: Payment where
  "payment_100 =
     \<lparr> paymentID = ''pay-100'', payment_orderID = ''order-100'', payment_status = pay_processing,
       payment_method = cod, amount = 200000, paidAt = None \<rparr>"

definition shop_paying :: db where
  "shop_paying = shop_ordered \<lparr> payments := [payment_100] \<rparr>"

definition shop_pay_failed :: db where
  "shop_pay_failed = shop_ordered \<lparr> payments := [payment_100 \<lparr> payment_status := pay_failed \<rparr>] \<rparr>"

section \<open>Cart service\<close>

record CartItemInput =
  ci_bookID :: ident
  ci_quantity :: int
  ci_isSelected :: "bool option"

text \<open>The compound key \<open>cartID_bookID\<close> of a cart item.\<close>

definition cartID_bookID :: "CartBook \<Rightarrow> ident \<times> ident" where
  "cartID_bookID r = (cb_cartID r, cb_bookID r)"

text \<open>
  The Prisma schema, which declares the foreign keys, is not among the sources.  Where
  the code creates a row without having looked up the row it refers to, the model takes
  as a parameter \<open>fk\<close> whether the store enforces the foreign key; a violation is P2003.
  A new cart refers to its user.
\<close>

definition create_cart :: "bool \<Rightarrow> Cart \<Rightarrow> db \<Rightarrow> error + db" where
  "create_cart fk c tx =
     (if fk \<and> cart_userID c \<notin> set (map userID (users tx)) then Inl (Prisma P2003)
      else if cart_userID c \<in> set (map cart_userID (carts tx)) then Inl (Prisma P2002)
      else case create_row cartID c (carts tx) of
             Inl e \<Rightarrow> Inl e
           | Inr cs \<Rightarrow> Inr (tx\<lparr> carts := cs \<rparr>))"

text \<open>
  \<open>addItemToCart\<close>, in the steps of the source: the user's cart, found or created;
  the checks of the book and of its stock; the row of the cart for the book, updated
  when there is one and created otherwise, with the flag \<open>isSelected\<close> of the input,
  true when the input leaves it out; the cart read again.  The quantity of the row is
  an Int column.  The result is the cart with its rows, from which the response is
  formatted.
\<close>

definition find_or_create_cart :: "bool \<Rightarrow> ident \<Rightarrow> ident \<Rightarrow> db \<Rightarrow> error + (Cart \<times> db)" where
  "find_or_create_cart fk uid newCartID tx =
     (case findUnique cart_userID uid (carts tx) of
        Some c \<Rightarrow> Inr (c, tx)
      | None \<Rightarrow>
          (case create_cart fk \<lparr> cartID = newCartID, cart_userID = uid \<rparr> tx of
             Inl e \<Rightarrow> Inl e
           | Inr tx' \<Rightarrow> Inr (\<lparr> cartID = newCartID, cart_userID = uid \<rparr>, tx')))"

definition put_cart_item :: "ident \<Rightarrow> CartItemInput \<Rightarrow> time \<Rightarrow> CartBook list \<Rightarrow> error + CartBook list" where
  "put_cart_item cid itemData now rows =
     (case findUnique cartID_bookID (cid, ci_bookID itemData) rows of
        Some existingItem \<Rightarrow>
          if Int_column (cb_quantity existingItem + ci_quantity itemData)
          then update_row cartID_bookID (cid, ci_bookID itemData)
                 (\<lambda>r. r\<lparr> cb_quantity := cb_quantity existingItem + ci_quantity itemData,
                          isSelected := (case ci_isSelected itemData of
                                           None \<Rightarrow> True | Some b \<Rightarrow> b) \<rparr>) rows
          else Inl (Prisma P2020)
      | None \<Rightarrow>
          if Int_column (ci_quantity itemData)
          then create_row cartID_bookID
                 \<lparr> cb_cartID = cid, cb_bookID = ci_bookID itemData,
                   cb_quantity = ci_quantity itemData,
                   isSelected = (case ci_isSelected itemData of None \<Rightarrow> True | Some b \<Rightarrow> b),
                   addedAt = now \<rparr> rows
          else Inl (Prisma P2020))"

definition addItemToCart_body ::
  "bool \<Rightarrow> ident \<Rightarrow> CartItemInput \<Rightarrow> ident \<Rightarrow> time \<Rightarrow> db \<Rightarrow> error + ((Cart \<times> CartBook list) \<times> db)" where
  "addItemToCart_body fk uid itemData newCartID now tx =
     (case find_or_create_cart fk uid newCartID tx of
        Inl e \<Rightarrow> Inl e
      | Inr (cart, tx1) \<Rightarrow>
          (case findUnique bookID (ci_bookID itemData) (books tx1) of
             None \<Rightarrow> Inl BookNotFound
           | Some book \<Rightarrow>
               if ci_quantity itemData > stockQuantity book
               then Inl (NotEnoughStock (stockQuantity book))
               else
                 (case put_cart_item (cartID cart) itemData now (cartBooks tx1) of
                    Inl e \<Rightarrow> Inl e
                  | Inr cbs \<Rightarrow>
                      (case findUnique cartID (cartID cart) (carts tx1) of
                         None \<Rightarrow> Inl FailedToRetrieveUpdatedCart
                       | Some updatedCart \<Rightarrow>
                           Inr ((updatedCart,
                                 filter (\<lambda>r. cb_cartID r = cartID updatedCart) cbs),
                                tx1\<lparr> cartBooks := cbs \<rparr>)))))"

definition addItemToCart_catch :: "error \<Rightarrow> error" where
  "addItemToCart_catch e = (case e of Prisma P2003 \<Rightarrow> InvalidBookID | _ \<Rightarrow> e)"

definition addItemToCart ::
  "bool \<Rightarrow> db \<Rightarrow> ident \<Rightarrow> CartItemInput \<Rightarrow> ident \<Rightarrow> time \<Rightarrow> (error + (Cart \<times> CartBook list)) \<times> db" where
  "addItemToCart fk d uid itemData newCartID now =
     catch_with addItemToCart_catch
       (transaction (addItemToCart_body fk uid itemData newCartID now) d)"

text \<open>
  The identifier of the cart that \<open>addItemToCart\<close> works on: the user's cart, or the
  one it creates.  The creation goes through when the identifier drawn is new and, if
  the store enforces the foreign key, the user exists.
\<close>

definition cart_of :: "db \<Rightarrow> ident \<Rightarrow> ident \<Rightarrow> ident" where
  "cart_of d uid newCartID =
     (case findUnique cart_userID uid (carts d) of Some c \<Rightarrow> cartID c | None \<Rightarrow> newCartID)"

definition cart_available :: "bool \<Rightarrow> db \<Rightarrow> ident \<Rightarrow> ident \<Rightarrow> bool" where
  "cart_available fk d uid newCartID =
     (case findUnique cart_userID uid (carts d) of
        Some c \<Rightarrow> True
      | None \<Rightarrow> newCartID \<notin> set (map cartID (carts d))
                \<and> (if fk then uid \<in> set (map userID (users d)) else True))"

subsection \<open>Cart requests, for the examples\<close>

definition add_two_more :: CartItemInput where
  "add_two_more = \<lparr> ci_bookID = ''book-002'', ci_quantity = 2, ci_isSelected = None \<rparr>"


text \<open>A store in which the cart holds as many copies of a book as the Int column can count.\<close>

definition shop_full_cart :: db where
  "shop_full_cart =
     shop \<lparr> cartBooks :=
       [\<lparr> cb_cartID = ''cart-001'', cb_bookID = ''book-002'', cb_quantity = 2147483647,
          isSelected = True, addedAt = 5 \<rparr>] \<rparr>"

definition add_one_more :: CartItemInput where
  "add_one_more = \<lparr> ci_bookID = ''book-002'', ci_quantity = 1, ci_isSelected = Some True \<rparr>"


section \<open>Registration\<close>

record RegisterInput =
  r_email :: string
  r_password :: string
  r_name :: string
  r_role :: Role
  r_phone :: "string option"
  r_gender :: "string option"
  r_birthDate :: "time option"

text \<open>The \<open>user\<close> object of the response of \<open>register\<close> (the token is left out).\<close>

record AuthUser =
  au_id :: ident
  au_email :: string
  au_name :: string
  au_role :: Role

text \<open>
  The four identifiers that one call of \<open>register\<close> can draw with \<open>uuidv4()\<close>, in the
  order of the calls: the \<open>authID\<close>, the \<open>userID\<close> of \<open>register\<close>, the identifier
  that the factory draws for the profile row, and the \<open>cartID\<close>.
\<close>

record uuids =
  uuid_auth :: ident
  uuid_register :: ident
  uuid_factory :: ident
  uuid_cart :: ident

text \<open>
  \<open>userFactory\<close> writes through the global client \<open>prisma\<close>, not through the
  transaction \<open>tx\<close> of its caller: its rows go to the committed store at once and no
  rollback removes them, and its foreign keys are checked against the committed store.
  The profile tables are keyed by their identifier, and by \<open>authID\<close> (the relation of
  a profile to its authentication is one to one).  \<open>x || null\<close> is null for an empty
  string.
\<close>

definition or_null :: "string option \<Rightarrow> string option" where
  "or_null x = (case x of None \<Rightarrow> None | Some s \<Rightarrow> (if s = '''' then None else Some s))"

definition createUser ::
  "bool \<Rightarrow> string \<Rightarrow> string option \<Rightarrow> string option \<Rightarrow> time option \<Rightarrow> ident \<Rightarrow> ident \<Rightarrow> db
     \<Rightarrow> error + db" where
  "createUser fk nm ph gd bd aid newID d =
     (if fk \<and> aid \<notin> set (map authID (authentications d)) then Inl (Prisma P2003)
      else if aid \<in> set (map user_authID (users d)) then Inl (Prisma P2002)
      else case create_row userID
                  \<lparr> userID = newID, name = nm, phone = or_null ph, gender = or_null gd,
                    birthDate = bd, user_authID = aid \<rparr> (users d) of
             Inl e \<Rightarrow> Inl e
           | Inr us \<Rightarrow> Inr (d\<lparr> users := us \<rparr>))"

definition createAuthor :: "bool \<Rightarrow> string \<Rightarrow> ident \<Rightarrow> ident \<Rightarrow> db \<Rightarrow> error + db" where
  "createAuthor fk nm aid newID d =
     (if fk \<and> aid \<notin> set (map authID (authentications d)) then Inl (Prisma P2003)
      else if aid \<in> set (map author_authID (authors d)) then Inl (Prisma P2002)
      else case create_row authorID
                  \<lparr> authorID = newID, author_name = nm, author_authID = aid \<rparr> (authors d) of
             Inl e \<Rightarrow> Inl e
           | Inr as \<Rightarrow> Inr (d\<lparr> authors := as \<rparr>))"

definition createAdmin :: "bool \<Rightarrow> ident \<Rightarrow> ident \<Rightarrow> db \<Rightarrow> error + db" where
  "createAdmin fk aid newID d =
     (if fk \<and> aid \<notin> set (map authID (authentications d)) then Inl (Prisma P2003)
      else if aid \<in> set (map admin_authID (admins d)) then Inl (Prisma P2002)
      else case create_row adminID \<lparr> adminID = newID, admin_authID = aid \<rparr> (admins d) of
             Inl e \<Rightarrow> Inl e
           | Inr as \<Rightarrow> Inr (d\<lparr> admins := as \<rparr>))"

text \<open>The authentication table is keyed by \<open>authID\<close> and by \<open>email\<close>.\<close>

definition create_authentication :: "Authentication \<Rightarrow> db \<Rightarrow> error + db" where
  "create_authentication a tx =
     (if email a \<in> set (map email (authentications tx)) then Inl (Prisma P2002)
      else case create_row authID a (authentications tx) of
             Inl e \<Rightarrow> Inl e
           | Inr as \<Rightarrow> Inr (tx\<lparr> authentications := as \<rparr>))"

text \<open>
  The body of the transaction of \<open>register\<close> runs on two stores: \<open>committed\<close>, which the
  global client reads and writes, and \<open>working\<close>, the view of the transaction, which
  holds the committed rows and the rows the transaction has written.  A write of the
  global client lands in both.  The body returns the committed store in every case,
  and the working store with its result when it does not throw.  \<open>hash\<close> is
  \<open>bcrypt.hash\<close> with cost 12.
\<close>

definition through_global :: "(db \<Rightarrow> error + db) \<Rightarrow> (db \<Rightarrow> db \<Rightarrow> db) \<Rightarrow> db \<times> db \<Rightarrow> (error + db) \<times> db" where
  "through_global write copy cw =
     (case write (fst cw) of
        Inl e \<Rightarrow> (Inl e, fst cw)
      | Inr committed' \<Rightarrow> (Inr (copy committed' (snd cw)), committed'))"

definition register_body ::
  "bool \<Rightarrow> (string \<Rightarrow> string) \<Rightarrow> RegisterInput \<Rightarrow> uuids \<Rightarrow> db \<Rightarrow> (error + (AuthUser \<times> db)) \<times> db" where
  "register_body fk hash userData ids committed =
     (case findUnique email (r_email userData) (authentications committed) of
        Some existingAuth \<Rightarrow> (Inl EmailAlreadyExists, committed)
      | None \<Rightarrow>
          (case create_authentication
                  \<lparr> authID = uuid_auth ids, email = r_email userData,
                    pass = hash (r_password userData), role = r_role userData \<rparr> committed of
             Inl e \<Rightarrow> (Inl e, committed)
           | Inr working \<Rightarrow>
               let response = \<lparr> au_id = uuid_register ids, au_email = r_email userData,
                                 au_name = r_name userData, au_role = r_role userData \<rparr>
               in
               (case r_role userData of
                  role_user \<Rightarrow>
                    (case through_global
                            (createUser fk (r_name userData) (r_phone userData) (r_gender userData)
                               (r_birthDate userData) (uuid_auth ids) (uuid_factory ids))
                            (\<lambda>c w. w\<lparr> users := users c \<rparr>) (committed, working) of
                       (Inl e, committed') \<Rightarrow> (Inl e, committed')
                     | (Inr working', committed') \<Rightarrow>
                         (case create_cart fk
                                 \<lparr> cartID = uuid_cart ids, cart_userID = uuid_register ids \<rparr>
                                 working' of
                            Inl e \<Rightarrow> (Inl e, committed')
                          | Inr working'' \<Rightarrow> (Inr (response, working''), committed')))
                | role_author \<Rightarrow>
                    (case through_global
                            (createAuthor fk (r_name userData) (uuid_auth ids) (uuid_factory ids))
                            (\<lambda>c w. w\<lparr> authors := authors c \<rparr>) (committed, working) of
                       (Inl e, committed') \<Rightarrow> (Inl e, committed')
                     | (Inr working', committed') \<Rightarrow> (Inr (response, working'), committed'))
                | role_admin \<Rightarrow>
                    (case through_global
                            (createAdmin fk (uuid_auth ids) (uuid_factory ids))
                            (\<lambda>c w. w\<lparr> admins := admins c \<rparr>) (committed, working) of
                       (Inl e, committed') \<Rightarrow> (Inl e, committed')
                     | (Inr working', committed') \<Rightarrow> (Inr (response, working'), committed')))))"

text \<open>
  \<open>register\<close>: the transaction commits the working store of a body that returns, and
  leaves the committed store of a body that throws; the \<open>catch\<close> replaces every error
  by "Registration failed".
\<close>

definition register ::
  "bool \<Rightarrow> (string \<Rightarrow> string) \<Rightarrow> db \<Rightarrow> RegisterInput \<Rightarrow> uuids \<Rightarrow> (error + AuthUser) \<times> db" where
  "register fk hash d userData ids =
     catch_with (\<lambda>e. RegistrationFailed)
       (case register_body fk hash userData ids d of
          (Inl e, committed') \<Rightarrow> (Inl e, committed')
        | (Inr (response, working), committed') \<Rightarrow> (Inr response, working))"

text \<open>
  The controller of \<open>register\<close> answers 409 when the message of the error includes
  "already exists", and 500 otherwise.
\<close>

definition register_http_status :: "error \<Rightarrow> nat" where
  "register_http_status e = (case e of EmailAlreadyExists \<Rightarrow> 409 | _ \<Rightarrow> 500)"

subsection \<open>Registrations, for the examples\<close>

definition toy_hash :: "string \<Rightarrow> string" where
  "toy_hash pw = ''$2b$12$'' @ pw"

definition draw :: uuids where
  "draw = \<lparr> uuid_auth = ''uuid-1'', uuid_register = ''uuid-2'', uuid_factory = ''uuid-3'',
            uuid_cart = ''uuid-4'' \<rparr>"

definition register_again :: RegisterInput where
  "register_again =
     \<lparr> r_email = ''an@example.com'', r_password = ''secret'', r_name = ''An'', r_role = role_user,
       r_phone = None, r_gender = None, r_birthDate = None \<rparr>"

definition register_binh :: RegisterInput where
  "register_binh =
     \<lparr> r_email = ''binh@example.com'', r_password = ''secret'', r_name = ''Binh'',
       r_role = role_user, r_phone = None, r_gender = None, r_birthDate = None \<rparr>"
section \<open>Properties of the row operations and of transactions\<close>

lemma findUnique_Some_key: "findUnique key k rows = Some r \<Longrightarrow> key r = k \<and> r \<in> set rows"
  unfolding findUnique_def by (induction rows) (auto split: if_splits)

lemma findUnique_None_iff: "findUnique key k rows = None \<longleftrightarrow> k \<notin> set (map key rows)"
  unfolding findUnique_def by (induction rows) auto

lemma findUnique_Some_mem: "findUnique key k rows = Some r \<Longrightarrow> k \<in> set (map key rows)"
  using findUnique_None_iff[of key k rows] by simp

lemma findUnique_mem_Some: "k \<in> set (map key rows) \<Longrightarrow> \<exists>r. findUnique key k rows = Some r"
  using findUnique_None_iff[of key k rows] by (cases "findUnique key k rows") simp_all

lemma findUnique_map_update:
  assumes "\<And>r. key r = k \<Longrightarrow> key (f r) = k"
  shows "findUnique key k' (map (\<lambda>r. if key r = k then f r else r) rows) =
         (if k' = k then map_option f (findUnique key k rows) else findUnique key k' rows)"
  unfolding findUnique_def using assms by (induction rows) auto

lemma findUnique_map:
  assumes "\<And>r. key (g r) = key r"
  shows "findUnique key k (map g rows) = map_option g (findUnique key k rows)"
  unfolding findUnique_def using assms by (induction rows) auto

lemma findUnique_append_new:
  "k \<notin> set (map key rows) \<Longrightarrow> key r = k \<Longrightarrow> findUnique key k (rows @ [r]) = Some r"
  unfolding findUnique_def by (induction rows) auto

lemma distinct_key_unique:
  "distinct (map key rows) \<Longrightarrow> findUnique key k rows = Some r0 \<Longrightarrow> r \<in> set rows \<Longrightarrow> key r = k \<Longrightarrow> r = r0"
proof -
  assume d: "distinct (map key rows)" and f: "findUnique key k rows = Some r0"
    and r: "r \<in> set rows" "key r = k"
  from f have r0: "key r0 = k" "r0 \<in> set rows" by (auto dest: findUnique_Some_key)
  from d have "inj_on key (set rows)" by (simp add: distinct_map)
  with r r0 show "r = r0" by (auto dest: inj_onD)
qed

lemma update_row_Inr:
  "update_row key k f rows = Inr rows' \<Longrightarrow>
     k \<in> set (map key rows) \<and> rows' = map (\<lambda>r. if key r = k then f r else r) rows"
  unfolding update_row_def by (auto split: if_splits)

lemma update_book_Inr:
  assumes "update_book k f bs = Inr bs'"
  shows "k \<in> set (map bookID bs)"
    and "bs' = map (\<lambda>r. if bookID r = k then f r else r) bs"
    and "\<And>b. b \<in> set bs \<Longrightarrow> bookID b = k \<Longrightarrow>
           Int_column (stockQuantity (f b)) \<and> Int_column (soldNumber (f b))"
proof -
  from assms have chk: "list_all (\<lambda>b. Int_column (stockQuantity (f b)) \<and> Int_column (soldNumber (f b)))
           (filter (\<lambda>b. bookID b = k) bs)"
    and up: "update_row bookID k f bs = Inr bs'"
    unfolding update_book_def by (simp_all split: if_splits)
  from update_row_Inr[OF up] show "k \<in> set (map bookID bs)"
    and "bs' = map (\<lambda>r. if bookID r = k then f r else r) bs" by simp_all
  fix b assume "b \<in> set bs" "bookID b = k"
  with chk show "Int_column (stockQuantity (f b)) \<and> Int_column (soldNumber (f b))"
    by (simp add: list_all_iff)
qed

lemma update_book_ok:
  assumes "k \<in> set (map bookID bs)"
    and "\<And>b. b \<in> set bs \<Longrightarrow> bookID b = k \<Longrightarrow>
           Int_column (stockQuantity (f b)) \<and> Int_column (soldNumber (f b))"
  shows "update_book k f bs = Inr (map (\<lambda>r. if bookID r = k then f r else r) bs)"
  using assms unfolding update_book_def update_row_def by (simp add: list_all_iff)

lemma transaction_isl: "isl (fst (transaction body d)) \<Longrightarrow> snd (transaction body d) = d"
  unfolding transaction_def by (auto split: sum.splits prod.splits)

lemma catch_with_snd: "snd (catch_with h res) = snd res"
  unfolding catch_with_def by (cases res) (auto split: sum.splits)

lemma catch_with_isl: "isl (fst (catch_with h res)) = isl (fst res)"
  unfolding catch_with_def by (cases res) (auto split: sum.splits)

lemma catch_with_Inr: "catch_with h res = (Inr r, d') \<longleftrightarrow> res = (Inr r, d')"
  unfolding catch_with_def by (cases res) (auto split: sum.splits)

lemma transaction_Inr: "transaction body d = (Inr r, d') \<longleftrightarrow> body d = Inr (r, d')"
  unfolding transaction_def by (auto split: sum.splits prod.splits)

lemma Int_column_between:
  "Int_column a \<Longrightarrow> Int_column c \<Longrightarrow> a \<le> b \<Longrightarrow> b \<le> c \<Longrightarrow> Int_column b"
  by (simp add: Int_column_def)

section \<open>Properties of the order service\<close>

lemma createOrder_Inr:
  "createOrder nm d inp nid = (Inr ord, d') \<longleftrightarrow> createOrder_body nm inp nid d = Inr (ord, d')"
  unfolding createOrder_def by (simp add: catch_with_Inr transaction_Inr)

lemma createOrder_failed:
  "isl (fst (createOrder nm d inp nid)) \<Longrightarrow> snd (createOrder nm d inp nid) = d"
  unfolding createOrder_def by (simp add: catch_with_snd catch_with_isl transaction_isl)

lemma cancelOrder_failed: "isl (fst (cancelOrder d oid)) \<Longrightarrow> snd (cancelOrder d oid) = d"
  unfolding cancelOrder_def by (rule transaction_isl)

lemma restore_stock_Cons_Inr:
  assumes "restore_stock bs (l # ls) = Inr r"
  shows "ob_bookID l \<in> set (map bookID bs)
     \<and> restore_stock
          (map (\<lambda>r. if bookID r = ob_bookID l
                 then r\<lparr> stockQuantity := stockQuantity r + quantity l,
                         soldNumber := soldNumber r - quantity l \<rparr> else r) bs) ls = Inr r"
proof -
  let ?f = "\<lambda>b. b\<lparr> stockQuantity := stockQuantity b + quantity l,
                    soldNumber := soldNumber b - quantity l \<rparr>"
  from assms obtain bs1 where up: "update_book (ob_bookID l) ?f bs = Inr bs1"
    by (cases "update_book (ob_bookID l) ?f bs") simp_all
  note u = update_book_Inr(1,2)[OF up]
  from assms up have "restore_stock bs1 ls = Inr r" by simp
  with u show ?thesis by simp
qed

lemma process_items_Cons_Inr:
  assumes "process_items nm bs (item # rest) tot obs = Inr r"
  shows "\<exists>book. findUnique bookID (item_bookID item) bs = Some book
     \<and> 0 < item_quantity item \<and> item_quantity item \<le> stockQuantity book
     \<and> Int_column (stockQuantity book - item_quantity item)
     \<and> Int_column (soldNumber book + item_quantity item)
     \<and> process_items nm
          (map (\<lambda>r. if bookID r = item_bookID item
                 then r\<lparr> stockQuantity := stockQuantity book - item_quantity item,
                         soldNumber := soldNumber book + item_quantity item \<rparr> else r) bs)
          rest (js_plus nm tot (js_times nm (price book) (item_quantity item)))
          (obs @ [\<lparr> ob_bookID = item_bookID item, priceAtTime = price book,
                    quantity = item_quantity item,
                    subTotal = js_times nm (price book) (item_quantity item) \<rparr>]) = Inr r"
proof (cases "findUnique bookID (item_bookID item) bs")
  case None
  with assms show ?thesis by simp
next
  case (Some book)
  define f where "f = (\<lambda>b::Book. b\<lparr> stockQuantity := stockQuantity book - item_quantity item,
                    soldNumber := soldNumber book + item_quantity item \<rparr>)"
  from assms Some have q: "0 < item_quantity item" "item_quantity item \<le> stockQuantity book"
    by (simp_all split: if_splits)
  from assms Some q have *: "(case update_book (item_bookID item) f bs of
                 Inl e \<Rightarrow> Inl e
               | Inr bs' \<Rightarrow> process_items nm bs' rest (js_plus nm tot (js_times nm (price book) (item_quantity item))) (obs @ [\<lparr> ob_bookID = item_bookID item, priceAtTime = price book,
                    quantity = item_quantity item,
                    subTotal = js_times nm (price book) (item_quantity item) \<rparr>])) = Inr r"
    by (simp add: Let_def f_def)
  then obtain bs1 where up: "update_book (item_bookID item) f bs = Inr bs1"
    by (cases "update_book (item_bookID item) f bs") simp_all
  from findUnique_Some_key[OF Some] have mem: "book \<in> set bs" "bookID book = item_bookID item"
    by simp_all
  from update_book_Inr(3)[OF up mem] have rng:
    "Int_column (stockQuantity book - item_quantity item)"
    "Int_column (soldNumber book + item_quantity item)" by (simp_all add: f_def)
  from update_book_Inr(2)[OF up] have bs1: "bs1 = map (\<lambda>r. if bookID r = item_bookID item
                 then r\<lparr> stockQuantity := stockQuantity book - item_quantity item,
                         soldNumber := soldNumber book + item_quantity item \<rparr> else r) bs"
    by (simp add: f_def)
  from * up have "process_items nm bs1 rest (js_plus nm tot (js_times nm (price book) (item_quantity item))) (obs @ [\<lparr> ob_bookID = item_bookID item, priceAtTime = price book,
                    quantity = item_quantity item,
                    subTotal = js_times nm (price book) (item_quantity item) \<rparr>]) = Inr r" by simp
  with Some q rng show ?thesis unfolding bs1 by blast
qed

lemma sell_sell: "sell a (sell b r) = sell (a + b) r"
  by (simp add: sell_def)

lemma sell_0: "sell 0 r = r"
  by (simp add: sell_def)

lemma bookID_sell: "bookID (sell n r) = bookID r"
  by (simp add: sell_def)

lemma process_items_lines:
  "process_items nm bs items tot obs = Inr (bs', tot', obs') \<Longrightarrow>
     \<exists>new. obs' = obs @ new
       \<and> map ob_bookID new = map item_bookID items
       \<and> map quantity new = map item_quantity items
       \<and> (\<forall>l \<in> set new. 0 < quantity l)"
proof (induction items arbitrary: bs tot obs)
  case Nil
  then show ?case by simp
next
  case (Cons item rest)
  from process_items_Cons_Inr[OF Cons.prems] obtain book where
    "findUnique bookID (item_bookID item) bs = Some book
     \<and> 0 < item_quantity item \<and> item_quantity item \<le> stockQuantity book
     \<and> Int_column (stockQuantity book - item_quantity item)
     \<and> Int_column (soldNumber book + item_quantity item)
     \<and> process_items nm
          (map (\<lambda>r. if bookID r = item_bookID item
                 then r\<lparr> stockQuantity := stockQuantity book - item_quantity item,
                         soldNumber := soldNumber book + item_quantity item \<rparr> else r) bs)
          rest (js_plus nm tot (js_times nm (price book) (item_quantity item)))
          (obs @ [\<lparr> ob_bookID = item_bookID item, priceAtTime = price book,
                    quantity = item_quantity item,
                    subTotal = js_times nm (price book) (item_quantity item) \<rparr>]) = Inr (bs', tot', obs')" ..
  then have q: "0 < item_quantity item"
    and rec: "process_items nm
          (map (\<lambda>r. if bookID r = item_bookID item
                 then r\<lparr> stockQuantity := stockQuantity book - item_quantity item,
                         soldNumber := soldNumber book + item_quantity item \<rparr> else r) bs)
          rest (js_plus nm tot (js_times nm (price book) (item_quantity item)))
          (obs @ [\<lparr> ob_bookID = item_bookID item, priceAtTime = price book,
                    quantity = item_quantity item,
                    subTotal = js_times nm (price book) (item_quantity item) \<rparr>]) = Inr (bs', tot', obs')"
    by simp_all
  define line where "line = \<lparr> ob_bookID = item_bookID item, priceAtTime = price book,
                    quantity = item_quantity item,
                    subTotal = js_times nm (price book) (item_quantity item) \<rparr>"
  from Cons.IH[OF rec] obtain new where
    new: "obs' = (obs @ [line]) @ new
       \<and> map ob_bookID new = map item_bookID rest
       \<and> map quantity new = map item_quantity rest
       \<and> (\<forall>l \<in> set new. 0 < quantity l)"
    unfolding line_def ..
  have l: "ob_bookID line = item_bookID item" "quantity line = item_quantity item"
    by (simp_all add: line_def)
  show ?case
  proof (intro exI[of _ "line # new"] conjI)
    from new show "obs' = obs @ line # new" by simp
    from new l show "map ob_bookID (line # new) = map item_bookID (item # rest)" by simp
    from new l show "map quantity (line # new) = map item_quantity (item # rest)" by simp
    from new l q show "\<forall>l\<in>set (line # new). 0 < quantity l" by simp
  qed
qed

lemma process_items_books:
  "distinct (map bookID bs) \<Longrightarrow> process_items nm bs items tot obs = Inr (bs', tot', obs') \<Longrightarrow>
     bs' = map (\<lambda>b. sell (requested_qty items (bookID b)) b) bs"
proof (induction items arbitrary: bs tot obs)
  case Nil
  then show ?case by (simp add: requested_qty_def sell_0)
next
  case (Cons item rest)
  from process_items_Cons_Inr[OF Cons.prems(2)] obtain book where
    "findUnique bookID (item_bookID item) bs = Some book
     \<and> 0 < item_quantity item \<and> item_quantity item \<le> stockQuantity book
     \<and> Int_column (stockQuantity book - item_quantity item)
     \<and> Int_column (soldNumber book + item_quantity item)
     \<and> process_items nm
          (map (\<lambda>r. if bookID r = item_bookID item
                 then r\<lparr> stockQuantity := stockQuantity book - item_quantity item,
                         soldNumber := soldNumber book + item_quantity item \<rparr> else r) bs)
          rest (js_plus nm tot (js_times nm (price book) (item_quantity item)))
          (obs @ [\<lparr> ob_bookID = item_bookID item, priceAtTime = price book,
                    quantity = item_quantity item,
                    subTotal = js_times nm (price book) (item_quantity item) \<rparr>]) = Inr (bs', tot', obs')" ..
  then have book: "findUnique bookID (item_bookID item) bs = Some book"
    and rec0: "process_items nm
          (map (\<lambda>r. if bookID r = item_bookID item
                 then r\<lparr> stockQuantity := stockQuantity book - item_quantity item,
                         soldNumber := soldNumber book + item_quantity item \<rparr> else r) bs)
          rest (js_plus nm tot (js_times nm (price book) (item_quantity item)))
          (obs @ [\<lparr> ob_bookID = item_bookID item, priceAtTime = price book,
                    quantity = item_quantity item,
                    subTotal = js_times nm (price book) (item_quantity item) \<rparr>]) = Inr (bs', tot', obs')"
    by simp_all
  define bs1 where "bs1 = map (\<lambda>r. if bookID r = item_bookID item
                 then r\<lparr> stockQuantity := stockQuantity book - item_quantity item,
                         soldNumber := soldNumber book + item_quantity item \<rparr> else r) bs"
  note bs1 = bs1_def
  from rec0 obtain tot1 obs1 where rec: "process_items nm bs1 rest tot1 obs1 = Inr (bs', tot', obs')"
    unfolding bs1 by simp
  have bs1': "bs1 = map (\<lambda>r. sell (if bookID r = item_bookID item then item_quantity item else 0) r) bs"
    unfolding bs1
  proof (rule map_cong[OF refl])
    fix r assume r: "r \<in> set bs"
    show "(if bookID r = item_bookID item
          then r\<lparr> stockQuantity := stockQuantity book - item_quantity item,
                  soldNumber := soldNumber book + item_quantity item \<rparr> else r) =
          sell (if bookID r = item_bookID item then item_quantity item else 0) r"
    proof (cases "bookID r = item_bookID item")
      case True
      with distinct_key_unique[OF Cons.prems(1) book r] have "r = book" by simp
      with True show ?thesis by (simp add: sell_def)
    next
      case False
      then show ?thesis by (simp add: sell_0)
    qed
  qed
  have ids: "map bookID bs1 = map bookID bs"
    unfolding bs1' by (simp add: bookID_sell o_def)
  with Cons.prems(1) have d1: "distinct (map bookID bs1)" by simp
  have "bs' = map (\<lambda>b. sell (requested_qty rest (bookID b)) b) bs1"
    by (rule Cons.IH[OF d1 rec])
  also have "\<dots> = map (\<lambda>b. sell (requested_qty (item # rest) (bookID b)) b) bs"
    unfolding bs1' by (auto simp: o_def bookID_sell sell_sell requested_qty_def sell_0 add.commute)
  finally show ?case .
qed

lemma process_items_valid:
  "process_items nm bs items tot obs = Inr r \<Longrightarrow>
     \<forall>item \<in> set items. \<exists>b. findUnique bookID (item_bookID item) bs = Some b
        \<and> 0 < item_quantity item \<and> item_quantity item \<le> stockQuantity b"
proof (induction items arbitrary: bs tot obs)
  case Nil
  then show ?case by simp
next
  case (Cons item rest)
  from process_items_Cons_Inr[OF Cons.prems] obtain book where
    "findUnique bookID (item_bookID item) bs = Some book
     \<and> 0 < item_quantity item \<and> item_quantity item \<le> stockQuantity book
     \<and> Int_column (stockQuantity book - item_quantity item)
     \<and> Int_column (soldNumber book + item_quantity item)
     \<and> process_items nm
          (map (\<lambda>r. if bookID r = item_bookID item
                 then r\<lparr> stockQuantity := stockQuantity book - item_quantity item,
                         soldNumber := soldNumber book + item_quantity item \<rparr> else r) bs)
          rest (js_plus nm tot (js_times nm (price book) (item_quantity item)))
          (obs @ [\<lparr> ob_bookID = item_bookID item, priceAtTime = price book,
                    quantity = item_quantity item,
                    subTotal = js_times nm (price book) (item_quantity item) \<rparr>]) = Inr r" ..
  then have book: "findUnique bookID (item_bookID item) bs = Some book"
    and q: "0 < item_quantity item" "item_quantity item \<le> stockQuantity book"
    and rec0: "process_items nm
          (map (\<lambda>r. if bookID r = item_bookID item
                 then r\<lparr> stockQuantity := stockQuantity book - item_quantity item,
                         soldNumber := soldNumber book + item_quantity item \<rparr> else r) bs)
          rest (js_plus nm tot (js_times nm (price book) (item_quantity item)))
          (obs @ [\<lparr> ob_bookID = item_bookID item, priceAtTime = price book,
                    quantity = item_quantity item,
                    subTotal = js_times nm (price book) (item_quantity item) \<rparr>]) = Inr r"
    by simp_all
  define bs1 where "bs1 = map (\<lambda>r. if bookID r = item_bookID item
                 then r\<lparr> stockQuantity := stockQuantity book - item_quantity item,
                         soldNumber := soldNumber book + item_quantity item \<rparr> else r) bs"
  note bs1 = bs1_def
  from rec0 obtain tot1 obs1 where rec: "process_items nm bs1 rest tot1 obs1 = Inr r"
    unfolding bs1 by simp
  have step: "\<exists>b. findUnique bookID k bs = Some b \<and> stockQuantity b1 \<le> stockQuantity b"
    if "findUnique bookID k bs1 = Some b1" for k b1
    using that book q unfolding bs1
    by (subst (asm) findUnique_map_update) (auto split: if_splits)
  show ?case
  proof
    fix it assume "it \<in> set (item # rest)"
    then consider "it = item" | "it \<in> set rest" by auto
    then show "\<exists>b. findUnique bookID (item_bookID it) bs = Some b
        \<and> 0 < item_quantity it \<and> item_quantity it \<le> stockQuantity b"
    proof cases
      case 1
      with book q show ?thesis by simp
    next
      case 2
      with Cons.IH[OF rec] obtain b1 where
        b1: "findUnique bookID (item_bookID it) bs1 = Some b1"
          "0 < item_quantity it" "item_quantity it \<le> stockQuantity b1" by blast
      from step[OF b1(1)] b1 show ?thesis by force
    qed
  qed
qed

lemma process_items_stock:
  "list_all (\<lambda>b. 0 \<le> stockQuantity b) bs \<Longrightarrow>
   process_items nm bs items tot obs = Inr (bs', tot', obs') \<Longrightarrow>
     list_all (\<lambda>b. 0 \<le> stockQuantity b) bs'"
proof (induction items arbitrary: bs tot obs)
  case Nil
  then show ?case by simp
next
  case (Cons item rest)
  from process_items_Cons_Inr[OF Cons.prems(2)] obtain book where
    "findUnique bookID (item_bookID item) bs = Some book
     \<and> 0 < item_quantity item \<and> item_quantity item \<le> stockQuantity book
     \<and> Int_column (stockQuantity book - item_quantity item)
     \<and> Int_column (soldNumber book + item_quantity item)
     \<and> process_items nm
          (map (\<lambda>r. if bookID r = item_bookID item
                 then r\<lparr> stockQuantity := stockQuantity book - item_quantity item,
                         soldNumber := soldNumber book + item_quantity item \<rparr> else r) bs)
          rest (js_plus nm tot (js_times nm (price book) (item_quantity item)))
          (obs @ [\<lparr> ob_bookID = item_bookID item, priceAtTime = price book,
                    quantity = item_quantity item,
                    subTotal = js_times nm (price book) (item_quantity item) \<rparr>]) = Inr (bs', tot', obs')" ..
  then have q: "item_quantity item \<le> stockQuantity book"
    and rec0: "process_items nm
          (map (\<lambda>r. if bookID r = item_bookID item
                 then r\<lparr> stockQuantity := stockQuantity book - item_quantity item,
                         soldNumber := soldNumber book + item_quantity item \<rparr> else r) bs)
          rest (js_plus nm tot (js_times nm (price book) (item_quantity item)))
          (obs @ [\<lparr> ob_bookID = item_bookID item, priceAtTime = price book,
                    quantity = item_quantity item,
                    subTotal = js_times nm (price book) (item_quantity item) \<rparr>]) = Inr (bs', tot', obs')"
    by simp_all
  define bs1 where "bs1 = map (\<lambda>r. if bookID r = item_bookID item
                 then r\<lparr> stockQuantity := stockQuantity book - item_quantity item,
                         soldNumber := soldNumber book + item_quantity item \<rparr> else r) bs"
  note bs1 = bs1_def
  from rec0 obtain tot1 obs1 where rec: "process_items nm bs1 rest tot1 obs1 = Inr (bs', tot', obs')"
    unfolding bs1 by simp
  have "list_all (\<lambda>b. 0 \<le> stockQuantity b) bs1"
    using Cons.prems(1) q unfolding bs1 by (auto simp: list_all_iff)
  from Cons.IH[OF this rec] show ?case .
qed

lemma ordered_qty_Cons:
  "ordered_qty (l # ls) k = (if ob_bookID l = k then quantity l else 0) + ordered_qty ls k"
  by (simp add: ordered_qty_def)

lemma ordered_qty_nonneg: "\<forall>l \<in> set ls. 0 \<le> quantity l \<Longrightarrow> 0 \<le> ordered_qty ls k"
  by (induction ls) (simp_all add: ordered_qty_Cons ordered_qty_def)

lemma ordered_qty_absent: "k \<notin> set (map ob_bookID ls) \<Longrightarrow> ordered_qty ls k = 0"
  by (induction ls) (auto simp: ordered_qty_Cons ordered_qty_def)

text \<open>The effect of the loop of \<open>cancelOrder\<close> when no update throws.\<close>

lemma restore_stock_books:
  "restore_stock bs ls = Inr bs' \<Longrightarrow>
     bs' = map (\<lambda>b. sell (- ordered_qty ls (bookID b)) b) bs"
proof (induction ls arbitrary: bs)
  case Nil
  then show ?case by (simp add: ordered_qty_def sell_0)
next
  case (Cons l ls)
  define bs1 where "bs1 = map (\<lambda>r. if bookID r = ob_bookID l
                 then r\<lparr> stockQuantity := stockQuantity r + quantity l,
                         soldNumber := soldNumber r - quantity l \<rparr> else r) bs"
  from restore_stock_Cons_Inr[OF Cons.prems] have rec: "restore_stock bs1 ls = Inr bs'"
    unfolding bs1_def by simp
  have bs1': "bs1 = map (\<lambda>r. sell (if bookID r = ob_bookID l then - quantity l else 0) r) bs"
    unfolding bs1_def by (rule map_cong[OF refl]) (simp add: sell_def)
  from Cons.IH[OF rec] have "bs' = map (\<lambda>b. sell (- ordered_qty ls (bookID b)) b) bs1" .
  also have "\<dots> = map (\<lambda>b. sell (- ordered_qty (l # ls) (bookID b)) b) bs"
    unfolding bs1' by (auto simp: o_def bookID_sell sell_sell ordered_qty_Cons sell_0)
  finally show ?case .
qed

text \<open>
  The loop of \<open>cancelOrder\<close> throws nothing when every line names a book of the table
  and has a quantity that is not negative, and the rows of these books hold 32-bit values
  before the loop and would hold 32-bit values after it.
\<close>

lemma restore_stock_succeeds:
  assumes "\<forall>l \<in> set ls. ob_bookID l \<in> set (map bookID bs) \<and> 0 \<le> quantity l"
    and "\<forall>b \<in> set bs. bookID b \<in> set (map ob_bookID ls) \<longrightarrow>
           Int_column (stockQuantity b) \<and> Int_column (soldNumber b)
           \<and> Int_column (stockQuantity b + ordered_qty ls (bookID b))
           \<and> Int_column (soldNumber b - ordered_qty ls (bookID b))"
  shows "restore_stock bs ls = Inr (map (\<lambda>b. sell (- ordered_qty ls (bookID b)) b) bs)"
  using assms
proof (induction ls arbitrary: bs)
  case Nil
  then show ?case by (simp add: ordered_qty_def sell_0)
next
  case (Cons l ls)
  define f where "f = (\<lambda>b::Book. b\<lparr> stockQuantity := stockQuantity b + quantity l,
                      soldNumber := soldNumber b - quantity l \<rparr>)"
  define bs1 where "bs1 = map (\<lambda>r. if bookID r = ob_bookID l then f r else r) bs"
  from Cons.prems(1) have mem: "ob_bookID l \<in> set (map bookID bs)" and q: "0 \<le> quantity l"
    and rest: "\<forall>l \<in> set ls. ob_bookID l \<in> set (map bookID bs) \<and> 0 \<le> quantity l"
    by simp_all
  from rest have nn: "0 \<le> ordered_qty ls k" for k
    by (intro ordered_qty_nonneg) simp
  have rng: "Int_column (stockQuantity (f b)) \<and> Int_column (soldNumber (f b))"
    if b: "b \<in> set bs" "bookID b = ob_bookID l" for b
  proof -
    from Cons.prems(2) b have
      r: "Int_column (stockQuantity b)" "Int_column (soldNumber b)"
         "Int_column (stockQuantity b + ordered_qty (l # ls) (bookID b))"
         "Int_column (soldNumber b - ordered_qty (l # ls) (bookID b))"
      by simp_all
    have o: "ordered_qty (l # ls) (bookID b) = quantity l + ordered_qty ls (bookID b)"
      using b by (simp add: ordered_qty_Cons)
    have "Int_column (stockQuantity b + quantity l)"
      by (rule Int_column_between[OF r(1) r(3)]) (use q nn[of "bookID b"] o in simp_all)
    moreover have "Int_column (soldNumber b - quantity l)"
      by (rule Int_column_between[OF r(4) r(2)]) (use q nn[of "bookID b"] o in simp_all)
    ultimately show ?thesis by (simp add: f_def)
  qed
  have up: "update_book (ob_bookID l) f bs = Inr bs1"
    unfolding bs1_def by (rule update_book_ok[OF mem rng])
  have bs1': "bs1 = map (\<lambda>r. sell (if bookID r = ob_bookID l then - quantity l else 0) r) bs"
    unfolding bs1_def f_def by (rule map_cong[OF refl]) (simp add: sell_def)
  have ids: "map bookID bs1 = map bookID bs"
    unfolding bs1' by (simp add: bookID_sell o_def)
  have p1: "\<forall>l \<in> set ls. ob_bookID l \<in> set (map bookID bs1) \<and> 0 \<le> quantity l"
    using rest unfolding ids .
  have p2: "\<forall>b \<in> set bs1. bookID b \<in> set (map ob_bookID ls) \<longrightarrow>
           Int_column (stockQuantity b) \<and> Int_column (soldNumber b)
           \<and> Int_column (stockQuantity b + ordered_qty ls (bookID b))
           \<and> Int_column (soldNumber b - ordered_qty ls (bookID b))"
  proof (intro ballI impI)
    fix b1 assume b1: "b1 \<in> set bs1" and k: "bookID b1 \<in> set (map ob_bookID ls)"
    from b1 obtain b where b: "b \<in> set bs"
      and b1_eq: "b1 = sell (if bookID b = ob_bookID l then - quantity l else 0) b"
      unfolding bs1' by auto
    have id: "bookID b1 = bookID b" by (simp add: b1_eq bookID_sell)
    from Cons.prems(2) b k id have
      r: "Int_column (stockQuantity b)" "Int_column (soldNumber b)"
         "Int_column (stockQuantity b + ordered_qty (l # ls) (bookID b))"
         "Int_column (soldNumber b - ordered_qty (l # ls) (bookID b))"
      by simp_all
    show "Int_column (stockQuantity b1) \<and> Int_column (soldNumber b1)
           \<and> Int_column (stockQuantity b1 + ordered_qty ls (bookID b1))
           \<and> Int_column (soldNumber b1 - ordered_qty ls (bookID b1))"
    proof (cases "bookID b = ob_bookID l")
      case True
      from rng[OF b True] r True show ?thesis
        by (simp add: id b1_eq sell_def f_def ordered_qty_Cons add.assoc diff_diff_eq)
    next
      case False
      with r show ?thesis
        by (simp add: id b1_eq sell_0 ordered_qty_Cons)
    qed
  qed
  have "restore_stock bs1 ls = Inr (map (\<lambda>b. sell (- ordered_qty ls (bookID b)) b) bs1)"
    by (rule Cons.IH[OF p1 p2])
  also have "map (\<lambda>b. sell (- ordered_qty ls (bookID b)) b) bs1 =
             map (\<lambda>b. sell (- ordered_qty (l # ls) (bookID b)) b) bs"
    unfolding bs1' by (auto simp: o_def bookID_sell sell_sell ordered_qty_Cons sell_0)
  finally show ?case using up by (simp add: f_def)
qed

lemma restore_stock_stock:
  "list_all (\<lambda>b. 0 \<le> stockQuantity b) bs \<Longrightarrow> list_all (\<lambda>l. 0 \<le> quantity l) ls \<Longrightarrow>
   restore_stock bs ls = Inr bs' \<Longrightarrow> list_all (\<lambda>b. 0 \<le> stockQuantity b) bs'"
proof -
  assume s: "list_all (\<lambda>b. 0 \<le> stockQuantity b) bs" and q: "list_all (\<lambda>l. 0 \<le> quantity l) ls"
    and r: "restore_stock bs ls = Inr bs'"
  from q have "0 \<le> ordered_qty ls k" for k
    by (intro ordered_qty_nonneg) (simp add: list_all_iff)
  then have "0 \<le> stockQuantity (sell (- ordered_qty ls (bookID b)) b)" if "0 \<le> stockQuantity b" for b
    using that by (simp add: sell_def add_nonneg_nonneg)
  with s show ?thesis
    unfolding restore_stock_books[OF r] by (simp add: list_all_iff)
qed

lemma ordered_requested:
  "map ob_bookID new = map item_bookID items \<Longrightarrow> map quantity new = map item_quantity items \<Longrightarrow>
     ordered_qty new k = requested_qty items k"
proof (induction new arbitrary: items)
  case Nil
  then show ?case by (simp add: ordered_qty_def requested_qty_def)
next
  case (Cons l ls)
  then obtain i rest where items: "items = i # rest" by (cases items) auto
  with Cons.prems have hd: "ob_bookID l = item_bookID i" "quantity l = item_quantity i"
    and tl: "map ob_bookID ls = map item_bookID rest" "map quantity ls = map item_quantity rest"
    by simp_all
  from Cons.IH[OF tl] hd show ?case
    unfolding items by (simp add: ordered_qty_def requested_qty_def)
qed

text \<open>The lines that \<open>order.create\<close> stores keep the book and the quantity of each line.\<close>

lemma stored_line_Some:
  "stored_line nm l = Some l' \<Longrightarrow>
     ob_bookID l' = ob_bookID l \<and> quantity l' = quantity l \<and> priceAtTime l' = priceAtTime l"
  unfolding stored_line_def by (auto split: if_splits)

lemma stored_lines:
  "those (map (stored_line nm) obs) = Some ls \<Longrightarrow>
     map ob_bookID ls = map ob_bookID obs \<and> map quantity ls = map quantity obs
     \<and> map priceAtTime ls = map priceAtTime obs"
proof (induction obs arbitrary: ls)
  case Nil
  then show ?case by simp
next
  case (Cons l obs)
  from Cons.prems obtain l' where l': "stored_line nm l = Some l'"
    by (cases "stored_line nm l") simp_all
  with Cons.prems obtain ls' where ls': "those (map (stored_line nm) obs) = Some ls'"
    by (cases "those (map (stored_line nm) obs)") simp_all
  from Cons.prems l' ls' have ls: "ls = l' # ls'" by simp
  from stored_line_Some[OF l'] Cons.IH[OF ls'] show ?case by (simp add: ls)
qed

lemmas order_eval =
  createOrder_def createOrder_body_def createOrder_catch_def cancelOrder_def cancelOrder_body_def
  transaction_def catch_with_def findUnique_def update_row_def create_row_def update_book_def
  stored_line_def exact_def Int_column_def format_addressSnapshot_def Let_def

lemma createOrder_body_Inr:
  assumes "createOrder_body nm inp nid d = Inr (ord, d')"
  shows "\<exists>user address bs tot obs stored_total stored_lines.
    findUnique userID (oc_userID inp) (users d) = Some user \<and>
    find (\<lambda>addr. addressID addr = oc_addressID inp)
       (filter (\<lambda>addr. address_userID addr = userID user) (addresses d)) = Some address \<and>
    oc_items inp \<noteq> [] \<and>
    process_items nm (books d) (oc_items inp) 0 [] = Inr (bs, tot, obs) \<and>
    to_Decimal nm tot = Some stored_total \<and>
    those (map (stored_line nm) obs) = Some stored_lines \<and>
    ord = \<lparr> orderID = nid, order_userID = oc_userID inp, status = pending,
            totalAmount = stored_total,
            addressSnapshot = format_addressSnapshot address, phoneSnapshot = oc_phone inp,
            order_books = stored_lines \<rparr> \<and>
    nid \<notin> set (map orderID (orders d)) \<and>
    d' = d\<lparr> books := bs, orders := orders d @ [ord] \<rparr>"
  using assms unfolding createOrder_body_def create_row_def
  by (auto simp: Let_def split: option.splits if_splits sum.splits prod.splits)

text \<open>What a successful \<open>createOrder\<close> leaves, in the terms the properties below use.\<close>

lemma createOrder_success:
  assumes "createOrder nm d inp nid = (Inr ord, d')"
  shows "\<exists>bs tot obs.
    process_items nm (books d) (oc_items inp) 0 [] = Inr (bs, tot, obs) \<and>
    map ob_bookID (order_books ord) = map item_bookID (oc_items inp) \<and>
    map quantity (order_books ord) = map item_quantity (oc_items inp) \<and>
    (\<forall>l \<in> set (order_books ord). 0 < quantity l) \<and>
    orderID ord = nid \<and> status ord = pending \<and>
    nid \<notin> set (map orderID (orders d)) \<and>
    d' = d\<lparr> books := bs, orders := orders d @ [ord] \<rparr>"
proof -
  from assms have "createOrder_body nm inp nid d = Inr (ord, d')"
    by (simp add: createOrder_Inr)
  from createOrder_body_Inr[OF this] obtain address bs tot obs stored_total stored_lines where
    pi: "process_items nm (books d) (oc_items inp) 0 [] = Inr (bs, tot, obs)"
    and st: "those (map (stored_line nm) obs) = Some stored_lines"
    and ord: "ord = \<lparr> orderID = nid, order_userID = oc_userID inp, status = pending,
            totalAmount = stored_total,
            addressSnapshot = format_addressSnapshot address, phoneSnapshot = oc_phone inp,
            order_books = stored_lines \<rparr>"
    and fresh: "nid \<notin> set (map orderID (orders d))"
    and d': "d' = d\<lparr> books := bs, orders := orders d @ [ord] \<rparr>"
    by blast
  from process_items_lines[OF pi] have lines:
    "map ob_bookID obs = map item_bookID (oc_items inp)"
    "map quantity obs = map item_quantity (oc_items inp)"
    "\<forall>l \<in> set obs. 0 < quantity l"
    by auto
  from stored_lines[OF st] have sl:
    "map ob_bookID stored_lines = map ob_bookID obs" "map quantity stored_lines = map quantity obs"
    by simp_all
  have ob: "order_books ord = stored_lines" by (simp add: ord)
  from lines(3) have "\<forall>q \<in> set (map quantity obs). 0 < q" by simp
  then have "\<forall>q \<in> set (map quantity stored_lines). 0 < q" unfolding sl(2) .
  then have pos: "\<forall>l \<in> set (order_books ord). 0 < quantity l" unfolding ob by simp
  have k: "orderID ord = nid" "status ord = pending" by (simp_all add: ord)
  show ?thesis
  proof (intro exI conjI)
    show "process_items nm (books d) (oc_items inp) 0 [] = Inr (bs, tot, obs)" by (rule pi)
    show "map ob_bookID (order_books ord) = map item_bookID (oc_items inp)"
      unfolding ob sl(1) by (rule lines(1))
    show "map quantity (order_books ord) = map item_quantity (oc_items inp)"
      unfolding ob sl(2) by (rule lines(2))
    show "\<forall>l \<in> set (order_books ord). 0 < quantity l" by (rule pos)
    show "orderID ord = nid" by (rule k(1))
    show "status ord = pending" by (rule k(2))
    show "nid \<notin> set (map orderID (orders d))" by (rule fresh)
    show "d' = d\<lparr> books := bs, orders := orders d @ [ord] \<rparr>" by (rule d')
  qed
qed

lemma shop_createOrder: "createOrder exact shop request_two ''order-100'' = (Inr order_100, shop_ordered)"
  by (simp add: order_eval shop_def request_two_def order_100_def shop_ordered_def)

lemma cancelOrder_ok:
  assumes f: "findUnique orderID oid (orders d) = Some order"
    and p: "status order = pending"
    and rs: "restore_stock (books d) (order_books order) = Inr bs"
  shows "cancelOrder d oid =
     (Inr (order\<lparr> status := canceled \<rparr>),
      d\<lparr> books := bs,
         orders := map (\<lambda>row. if orderID row = oid then row\<lparr> status := canceled \<rparr> else row)
                     (orders d) \<rparr>)"
proof -
  from findUnique_Some_mem[OF f] have "oid \<in> set (map orderID (orders d))" .
  then have up: "update_row orderID oid (\<lambda>row. row\<lparr> status := canceled \<rparr>) (orders d) =
      Inr (map (\<lambda>row. if orderID row = oid then row\<lparr> status := canceled \<rparr> else row) (orders d))"
    by (simp add: update_row_def)
  show ?thesis
    unfolding cancelOrder_def transaction_def cancelOrder_body_def
    by (simp add: f p rs up)
qed

lemma cancelOrder_Inr:
  assumes c: "cancelOrder d oid = (Inr res, d2)"
    and f: "findUnique orderID oid (orders d) = Some order"
  shows "status order = pending \<and> res = order\<lparr> status := canceled \<rparr>
     \<and> restore_stock (books d) (order_books order) = Inr (books d2)
     \<and> d2 = d\<lparr> books := books d2,
         orders := map (\<lambda>row. if orderID row = oid then row\<lparr> status := canceled \<rparr> else row)
                     (orders d) \<rparr>"
proof -
  from c have b: "cancelOrder_body oid d = Inr (res, d2)"
    unfolding cancelOrder_def by (simp add: transaction_Inr)
  from b f have p: "status order = pending"
    unfolding cancelOrder_body_def by (simp split: if_splits)
  from b f p obtain bs where rs: "restore_stock (books d) (order_books order) = Inr bs"
    unfolding cancelOrder_body_def
    by (cases "restore_stock (books d) (order_books order)") simp_all
  from cancelOrder_ok[OF f p rs] c have
    "res = order\<lparr> status := canceled \<rparr>"
    "d2 = d\<lparr> books := bs,
         orders := map (\<lambda>row. if orderID row = oid then row\<lparr> status := canceled \<rparr> else row)
                     (orders d) \<rparr>"
    by simp_all
  with p rs show ?thesis by simp
qed

lemma status_after_cancel:
  "findUnique orderID oid rows = Some order \<Longrightarrow>
   map_option status (findUnique orderID oid
      (map (\<lambda>row. if orderID row = oid then row\<lparr> status := canceled \<rparr> else row) rows))
     = Some canceled"
  by (subst findUnique_map_update) simp_all

lemma createOrder_inv:
  assumes "stock_nonneg d" "pending_lines_nonneg d"
  shows "stock_nonneg (snd (createOrder nm d inp nid))
     \<and> pending_lines_nonneg (snd (createOrder nm d inp nid))"
proof (cases "fst (createOrder nm d inp nid)")
  case (Inl e)
  then have "snd (createOrder nm d inp nid) = d"
    by (intro createOrder_failed) simp
  with assms show ?thesis by simp
next
  case (Inr ord)
  define d' where "d' = snd (createOrder nm d inp nid)"
  from Inr have c: "createOrder nm d inp nid = (Inr ord, d')"
    unfolding d'_def by (cases "createOrder nm d inp nid") simp
  from createOrder_success[OF c] obtain bs tot obs where
    pi: "process_items nm (books d) (oc_items inp) 0 [] = Inr (bs, tot, obs)"
    and pos: "\<forall>l \<in> set (order_books ord). 0 < quantity l"
    and d': "d' = d\<lparr> books := bs, orders := orders d @ [ord] \<rparr>"
    by blast
  from process_items_stock[OF _ pi] assms(1) have s: "list_all (\<lambda>b. 0 \<le> stockQuantity b) bs"
    by (simp add: stock_nonneg_def)
  from pos have "list_all (\<lambda>l. 0 \<le> quantity l) (order_books ord)"
    by (auto simp: list_all_iff intro: less_imp_le)
  with s assms(2) have "stock_nonneg d' \<and> pending_lines_nonneg d'"
    unfolding d' by (simp add: stock_nonneg_def pending_lines_nonneg_def)
  then show ?thesis unfolding d'_def .
qed

lemma cancelOrder_inv:
  assumes "stock_nonneg d" "pending_lines_nonneg d"
  shows "stock_nonneg (snd (cancelOrder d oid)) \<and> pending_lines_nonneg (snd (cancelOrder d oid))"
proof (cases "fst (cancelOrder d oid)")
  case (Inl e)
  then have "snd (cancelOrder d oid) = d"
    by (intro cancelOrder_failed) simp
  with assms show ?thesis by simp
next
  case (Inr res)
  define d2 where "d2 = snd (cancelOrder d oid)"
  from Inr have c: "cancelOrder d oid = (Inr res, d2)"
    unfolding d2_def by (cases "cancelOrder d oid") simp
  then have "cancelOrder_body oid d = Inr (res, d2)"
    unfolding cancelOrder_def by (simp add: transaction_Inr)
  then obtain ord where f: "findUnique orderID oid (orders d) = Some ord"
    unfolding cancelOrder_body_def by (cases "findUnique orderID oid (orders d)") simp_all
  from cancelOrder_Inr[OF c f] have p: "status ord = pending"
    and rs: "restore_stock (books d) (order_books ord) = Inr (books d2)"
    and d2: "d2 = d\<lparr> books := books d2,
         orders := map (\<lambda>row. if orderID row = oid then row\<lparr> status := canceled \<rparr> else row)
                     (orders d) \<rparr>"
    by simp_all
  from findUnique_Some_key[OF f] have "ord \<in> set (orders d)" by simp
  with assms(2) p have "list_all (\<lambda>l. 0 \<le> quantity l) (order_books ord)"
    by (auto simp: pending_lines_nonneg_def list_all_iff)
  from restore_stock_stock[OF _ this rs] assms(1) have s: "stock_nonneg d2"
    by (simp add: stock_nonneg_def)
  have "pending_lines_nonneg
          (d\<lparr> books := books d2,
         orders := map (\<lambda>row. if orderID row = oid then row\<lparr> status := canceled \<rparr> else row)
                     (orders d) \<rparr>)"
    using assms(2) unfolding pending_lines_nonneg_def by (auto simp: list_all_iff)
  with d2 have "pending_lines_nonneg d2" by simp
  with s show ?thesis unfolding d2_def by simp
qed

lemma run_ops_inv:
  "stock_nonneg d \<Longrightarrow> pending_lines_nonneg d \<Longrightarrow>
     stock_nonneg (run_ops nm d ops) \<and> pending_lines_nonneg (run_ops nm d ops)"
  unfolding run_ops_def
proof (induction ops arbitrary: d)
  case Nil
  then show ?case by simp
next
  case (Cons op ops)
  have "stock_nonneg (apply_op nm d op) \<and> pending_lines_nonneg (apply_op nm d op)"
    using Cons.prems by (cases op) (simp_all add: createOrder_inv cancelOrder_inv)
  with Cons.IH show ?case by simp
qed

text \<open>
  Claim C2.  From a store in which no book has a negative stock and there is no order
  yet, no book has a negative stock after any prefix of any sequence of order creations
  and cancellations.  More generally the same holds from every store in which no book has
  a negative stock and no line of a pending order has a negative quantity, and both
  properties hold again after every prefix: the lines are written by \<open>createOrder\<close>
  only, with positive quantities.  A creation or a cancellation that fails leaves the
  store as it was.
\<close>
theorem stock_never_negative:
  "(stock_nonneg d \<and> orders d = [] \<longrightarrow> stock_nonneg (run_ops nm d (take n ops)))
   \<and> (stock_nonneg d \<and> pending_lines_nonneg d \<longrightarrow>
        stock_nonneg (run_ops nm d (take n ops))
        \<and> pending_lines_nonneg (run_ops nm d (take n ops)))
   \<and> (isl (fst (createOrder nm d orderData newID)) \<longrightarrow>
        apply_op nm d (Create orderData newID) = d)
   \<and> (isl (fst (cancelOrder d oid)) \<longrightarrow> apply_op nm d (Cancel oid) = d)"
proof -
  have a: "stock_nonneg (run_ops nm d (take n ops))" if "stock_nonneg d \<and> orders d = []"
  proof -
    from that have "pending_lines_nonneg d" by (simp add: pending_lines_nonneg_def)
    with that run_ops_inv[of d nm "take n ops"] show ?thesis by simp
  qed
  have b: "stock_nonneg (run_ops nm d (take n ops))
        \<and> pending_lines_nonneg (run_ops nm d (take n ops))"
    if "stock_nonneg d \<and> pending_lines_nonneg d"
    using that run_ops_inv[of d nm "take n ops"] by simp
  have c: "apply_op nm d (Create orderData newID) = d"
    if "isl (fst (createOrder nm d orderData newID))"
    using that by (simp add: createOrder_failed)
  have e: "apply_op nm d (Cancel oid) = d" if "isl (fst (cancelOrder d oid))"
    using that by (simp add: cancelOrder_failed)
  from a b c e show ?thesis by blast
qed

theorem stock_never_negative_witness:
  "stock_nonneg shop \<and> orders shop = [] \<and> pending_lines_nonneg shop
   \<and> stock_nonneg (run_ops exact shop
        [Create request_two ''order-100'', Cancel ''order-100'',
         Create request_too_many ''order-101''])
   \<and> pending_lines_nonneg (run_ops exact shop
        [Create request_two ''order-100'', Cancel ''order-100'',
         Create request_too_many ''order-101''])
   \<and> isl (fst (createOrder exact shop request_too_many ''order-101''))
   \<and> apply_op exact shop (Create request_too_many ''order-101'') = shop
   \<and> isl (fst (cancelOrder shop ''order-404''))
   \<and> apply_op exact shop (Cancel ''order-404'') = shop"
proof -
  have h1: "stock_nonneg shop" by (simp add: stock_nonneg_def shop_def)
  have h0: "orders shop = []" by (simp add: shop_def)
  have h2: "pending_lines_nonneg shop" by (simp add: pending_lines_nonneg_def shop_def)
  have f1: "isl (fst (createOrder exact shop request_too_many ''order-101''))"
    by (simp add: order_eval shop_def request_too_many_def)
  have f2: "isl (fst (cancelOrder shop ''order-404''))"
    by (simp add: order_eval shop_def)
  note inst = stock_never_negative[where d = shop and nm = exact and n = 3
      and ops = "[Create request_two ''order-100'', Cancel ''order-100'',
        Create request_too_many ''order-101'']"
      and orderData = request_too_many and newID = "''order-101''" and oid = "''order-404''"]
  from inst h1 h0 have c1: "stock_nonneg (run_ops exact shop
        [Create request_two ''order-100'', Cancel ''order-100'',
         Create request_too_many ''order-101''])" by simp
  from inst h1 h2 have c2: "pending_lines_nonneg (run_ops exact shop
        [Create request_two ''order-100'', Cancel ''order-100'',
         Create request_too_many ''order-101''])" by simp
  from inst f1 have c3: "apply_op exact shop (Create request_too_many ''order-101'') = shop"
    by blast
  from inst f2 have c4: "apply_op exact shop (Cancel ''order-404'') = shop"
    by blast
  from h1 h0 h2 c1 c2 f1 c3 f2 c4 show ?thesis by blast
qed

text \<open>
  Claim C3.  \<open>createOrder\<close> fails on every bad request (unknown user, address that is
  not the user's, no item, an item with a missing book, a quantity that is not positive
  or a quantity above the stock of its book), and whenever it fails the whole store is
  the one from before the call: no stock, no sold count, no order and no line has
  changed, whichever items the loop had processed before the failure.
\<close>
theorem createOrder_failure_atomic:
  "(bad_order_request d orderData \<longrightarrow> isl (fst (createOrder nm d orderData newID)))
   \<and> (isl (fst (createOrder nm d orderData newID)) \<longrightarrow>
        snd (createOrder nm d orderData newID) = d)"
proof (intro conjI impI)
  assume bad: "bad_order_request d orderData"
  show "isl (fst (createOrder nm d orderData newID))"
  proof (rule ccontr)
    assume "\<not> isl (fst (createOrder nm d orderData newID))"
    then obtain ord where "fst (createOrder nm d orderData newID) = Inr ord"
      by (cases "fst (createOrder nm d orderData newID)") auto
    then have "createOrder nm d orderData newID = (Inr ord, snd (createOrder nm d orderData newID))"
      by (cases "createOrder nm d orderData newID") simp
    then have "createOrder_body nm orderData newID d = Inr (ord, snd (createOrder nm d orderData newID))"
      by (simp add: createOrder_Inr)
    from createOrder_body_Inr[OF this] obtain user address bs tot obs where
      u: "findUnique userID (oc_userID orderData) (users d) = Some user"
      and a: "find (\<lambda>addr. addressID addr = oc_addressID orderData)
               (filter (\<lambda>addr. address_userID addr = userID user) (addresses d)) = Some address"
      and ne: "oc_items orderData \<noteq> []"
      and pi: "process_items nm (books d) (oc_items orderData) 0 [] = Inr (bs, tot, obs)"
      by blast
    from process_items_valid[OF pi] have
      "\<forall>item \<in> set (oc_items orderData). \<exists>b. findUnique bookID (item_bookID item) (books d) = Some b
          \<and> 0 < item_quantity item \<and> item_quantity item \<le> stockQuantity b" .
    then have "\<not> list_ex (\<lambda>item.
            case findUnique bookID (item_bookID item) (books d) of
              None \<Rightarrow> True
            | Some book \<Rightarrow> item_quantity item \<le> 0 \<or> item_quantity item > stockQuantity book)
           (oc_items orderData)"
      by (fastforce simp: list_ex_iff)
    with u a ne bad show False
      by (simp add: bad_order_request_def)
  qed
next
  assume "isl (fst (createOrder nm d orderData newID))"
  then show "snd (createOrder nm d orderData newID) = d" by (rule createOrder_failed)
qed

theorem createOrder_failure_atomic_witness:
  "bad_order_request shop request_too_many
   \<and> isl (fst (createOrder exact shop request_too_many ''order-101''))
   \<and> snd (createOrder exact shop request_too_many ''order-101'') = shop
   \<and> fst (createOrder exact shop request_too_many ''order-101'') = Inl (NotEnoughStockFor ''Nha Gia Kim'' 3)"
proof -
  have bad: "bad_order_request shop request_too_many"
    by (simp add: bad_order_request_def findUnique_def shop_def request_too_many_def)
  have e: "fst (createOrder exact shop request_too_many ''order-101'') = Inl (NotEnoughStockFor ''Nha Gia Kim'' 3)"
    by (simp add: order_eval shop_def request_too_many_def)
  from createOrder_failure_atomic[of shop request_too_many exact "''order-101''"] bad e
  show ?thesis by simp
qed

lemma restore_stock_overflow:
  assumes b: "findUnique bookID (ob_bookID l) bs = Some b"
    and over: "2147483647 < stockQuantity b + quantity l \<or> soldNumber b - quantity l < - 2147483648"
  shows "restore_stock bs (l # ls) = Inl (Prisma P2020)"
proof -
  from findUnique_Some_key[OF b] have mem: "b \<in> set bs" and k: "bookID b = ob_bookID l"
    by simp_all
  from over have "\<not> (Int_column (stockQuantity b + quantity l) \<and> Int_column (soldNumber b - quantity l))"
    by (auto simp: Int_column_def)
  with mem k have "update_book (ob_bookID l)
             (\<lambda>b. b\<lparr> stockQuantity := stockQuantity b + quantity l,
                      soldNumber := soldNumber b - quantity l \<rparr>) bs = Inl (Prisma P2020)"
    unfolding update_book_def by (auto simp: list_all_iff)
  then show ?thesis by simp
qed

lemma distinct_findUnique:
  "distinct (map key rows) \<Longrightarrow> r \<in> set rows \<Longrightarrow> findUnique key (key r) rows = Some r"
proof -
  assume d: "distinct (map key rows)" and r: "r \<in> set rows"
  from r have "key r \<in> set (map key rows)" by simp
  from findUnique_mem_Some[OF this] obtain r0 where r0: "findUnique key (key r) rows = Some r0" ..
  from distinct_key_unique[OF d r0 r refl] r0 show ?thesis by simp
qed

lemma findUnique_sell:
  "findUnique bookID k (map (\<lambda>b. sell (g (bookID b)) b) bs) =
     map_option (sell (g k)) (findUnique bookID k bs)"
proof -
  have "findUnique bookID k (map (\<lambda>b. sell (g (bookID b)) b) bs) =
        map_option (\<lambda>b. sell (g (bookID b)) b) (findUnique bookID k bs)"
    by (rule findUnique_map) (simp add: bookID_sell)
  also have "\<dots> = map_option (sell (g k)) (findUnique bookID k bs)"
  proof (cases "findUnique bookID k bs")
    case None
    then show ?thesis by simp
  next
    case (Some b)
    from findUnique_Some_key[OF Some] have "bookID b = k" by simp
    then show ?thesis by (simp add: Some)
  qed
  finally show ?thesis .
qed

lemma findUnique_restore:
  "findUnique bookID k (map (\<lambda>b. sell (- g (bookID b)) b) bs) =
     map_option (sell (- g k)) (findUnique bookID k bs)"
  by (rule findUnique_sell[where g = "\<lambda>k. - g k"])

text \<open>
  Claim C4.  \<open>cancelOrder\<close> fails with "Order not found" when there is no such order,
  and with "Only pending orders can be canceled" when the order is not pending, and the
  store is unchanged in both cases.  For a pending order, a cancellation that succeeds
  returns the order as canceled, has moved the quantities of the lines of the order back
  from the sold count to the stock of their books, and has persisted the status
  \<open>canceled\<close>; one that fails leaves the store unchanged.  The cancellation succeeds
  when every line names a book of the store and has a quantity that is not negative, and
  the stock and the sold count of these books are 32-bit values before the cancellation
  and with the quantities of the lines moved back; it fails with P2020, and the store is
  unchanged, when the first line would take the stock of its book above 2147483647 or
  its sold count below -2147483648.  When the order is the one
  that \<open>createOrder\<close> has created from a store \<open>d0\<close>, and the row of each book of
  its lines is still the one that creation left, the cancellation succeeds, the row of
  each of these books is again the one of \<open>d0\<close>, with its stock and its sold count,
  every other book keeps its row, and the status persisted is \<open>canceled\<close>.  The book
  tables are those of a store: distinct identifiers and 32-bit Int columns.
\<close>
theorem cancelOrder_restores:
  "(findUnique orderID oid (orders d) = None \<longrightarrow> cancelOrder d oid = (Inl OrderNotFound, d))
   \<and> (findUnique orderID oid (orders d) = Some order \<and> status order \<noteq> pending \<longrightarrow>
        cancelOrder d oid = (Inl OnlyPendingCanBeCanceled, d))
   \<and> (findUnique orderID oid (orders d) = Some order \<and> status order = pending \<longrightarrow>
        (case fst (cancelOrder d oid) of
           Inl e \<Rightarrow> snd (cancelOrder d oid) = d
         | Inr res \<Rightarrow>
             res = order\<lparr> status := canceled \<rparr>
             \<and> books (snd (cancelOrder d oid)) =
                 map (\<lambda>b. sell (- ordered_qty (order_books order) (bookID b)) b) (books d)
             \<and> map_option status (findUnique orderID oid (orders (snd (cancelOrder d oid))))
                 = Some canceled))
   \<and> (findUnique orderID oid (orders d) = Some order \<and> status order = pending
        \<and> list_all (\<lambda>l. ob_bookID l \<in> set (map bookID (books d)) \<and> 0 \<le> quantity l)
              (order_books order)
        \<and> list_all (\<lambda>b. bookID b \<in> set (map ob_bookID (order_books order)) \<longrightarrow>
                - 2147483648 \<le> stockQuantity b
                \<and> stockQuantity b + ordered_qty (order_books order) (bookID b) \<le> 2147483647
                \<and> - 2147483648 \<le> soldNumber b - ordered_qty (order_books order) (bookID b)
                \<and> soldNumber b \<le> 2147483647)
              (books d) \<longrightarrow>
        fst (cancelOrder d oid) = Inr (order\<lparr> status := canceled \<rparr>))
   \<and> (findUnique orderID oid (orders d) = Some order \<and> status order = pending
        \<and> order_books order = l # ls
        \<and> findUnique bookID (ob_bookID l) (books d) = Some b
        \<and> (2147483647 < stockQuantity b + quantity l
             \<or> soldNumber b - quantity l < - 2147483648) \<longrightarrow>
        cancelOrder d oid = (Inl (Prisma P2020), d))
   \<and> (book_table (books d0) \<and> createOrder nm d0 orderData oid = (Inr created, d1)
        \<and> book_table (books d) \<and> findUnique orderID oid (orders d) = Some created
        \<and> list_all (\<lambda>l. findUnique bookID (ob_bookID l) (books d)
                          = findUnique bookID (ob_bookID l) (books d1)) (order_books created) \<longrightarrow>
        fst (cancelOrder d oid) = Inr (created\<lparr> status := canceled \<rparr>)
        \<and> list_all (\<lambda>l. findUnique bookID (ob_bookID l) (books d0) \<noteq> None
                     \<and> findUnique bookID (ob_bookID l) (books (snd (cancelOrder d oid)))
                          = findUnique bookID (ob_bookID l) (books d0)) (order_books created)
        \<and> (\<forall>k. k \<notin> set (map ob_bookID (order_books created)) \<longrightarrow>
              findUnique bookID k (books (snd (cancelOrder d oid))) = findUnique bookID k (books d))
        \<and> map_option status (findUnique orderID oid (orders (snd (cancelOrder d oid))))
            = Some canceled)"
proof -
  have c1: "cancelOrder d oid = (Inl OrderNotFound, d)"
    if "findUnique orderID oid (orders d) = None"
    using that by (simp add: cancelOrder_def transaction_def cancelOrder_body_def)
  have c2: "cancelOrder d oid = (Inl OnlyPendingCanBeCanceled, d)"
    if "findUnique orderID oid (orders d) = Some order \<and> status order \<noteq> pending"
    using that by (simp add: cancelOrder_def transaction_def cancelOrder_body_def)
  have c3: "(case fst (cancelOrder d oid) of
           Inl e \<Rightarrow> snd (cancelOrder d oid) = d
         | Inr res \<Rightarrow>
             res = order\<lparr> status := canceled \<rparr>
             \<and> books (snd (cancelOrder d oid)) =
                 map (\<lambda>b. sell (- ordered_qty (order_books order) (bookID b)) b) (books d)
             \<and> map_option status (findUnique orderID oid (orders (snd (cancelOrder d oid))))
                 = Some canceled)"
    if a: "findUnique orderID oid (orders d) = Some order \<and> status order = pending"
  proof (cases "fst (cancelOrder d oid)")
    case (Inl e)
    then have "snd (cancelOrder d oid) = d" by (intro cancelOrder_failed) simp
    with Inl show ?thesis by simp
  next
    case (Inr res)
    define d2 where "d2 = snd (cancelOrder d oid)"
    from a have f: "findUnique orderID oid (orders d) = Some order" by simp
    from Inr have c: "cancelOrder d oid = (Inr res, d2)"
      unfolding d2_def by (cases "cancelOrder d oid") simp
    from cancelOrder_Inr[OF c f] have res: "res = order\<lparr> status := canceled \<rparr>"
      and rs: "restore_stock (books d) (order_books order) = Inr (books d2)"
      and d2: "d2 = d\<lparr> books := books d2,
         orders := map (\<lambda>row. if orderID row = oid then row\<lparr> status := canceled \<rparr> else row)
                     (orders d) \<rparr>"
      by simp_all
    from d2 have "orders d2 = map (\<lambda>row. if orderID row = oid then row\<lparr> status := canceled \<rparr> else row)
                     (orders d)"
      by (cases d2) (cases d, simp)
    then have st: "map_option status (findUnique orderID oid (orders d2)) = Some canceled"
      using status_after_cancel[OF f] by simp
    from restore_stock_books[OF rs] res st Inr show ?thesis
      unfolding d2_def by simp
  qed
  have c3b: "fst (cancelOrder d oid) = Inr (order\<lparr> status := canceled \<rparr>)"
    if a: "findUnique orderID oid (orders d) = Some order \<and> status order = pending
        \<and> list_all (\<lambda>l. ob_bookID l \<in> set (map bookID (books d)) \<and> 0 \<le> quantity l)
              (order_books order)
        \<and> list_all (\<lambda>b. bookID b \<in> set (map ob_bookID (order_books order)) \<longrightarrow>
                - 2147483648 \<le> stockQuantity b
                \<and> stockQuantity b + ordered_qty (order_books order) (bookID b) \<le> 2147483647
                \<and> - 2147483648 \<le> soldNumber b - ordered_qty (order_books order) (bookID b)
                \<and> soldNumber b \<le> 2147483647)
              (books d)"
  proof -
    from a have f: "findUnique orderID oid (orders d) = Some order" and p: "status order = pending"
      and ex: "\<forall>l \<in> set (order_books order). ob_bookID l \<in> set (map bookID (books d)) \<and> 0 \<le> quantity l"
      and bounds: "\<forall>b \<in> set (books d). bookID b \<in> set (map ob_bookID (order_books order)) \<longrightarrow>
                - 2147483648 \<le> stockQuantity b
                \<and> stockQuantity b + ordered_qty (order_books order) (bookID b) \<le> 2147483647
                \<and> - 2147483648 \<le> soldNumber b - ordered_qty (order_books order) (bookID b)
                \<and> soldNumber b \<le> 2147483647"
      by (simp_all add: list_all_iff)
    from ex have nn: "0 \<le> ordered_qty (order_books order) k" for k
      by (intro ordered_qty_nonneg) simp
    have fits: "\<forall>b \<in> set (books d). bookID b \<in> set (map ob_bookID (order_books order)) \<longrightarrow>
                Int_column (stockQuantity b) \<and> Int_column (soldNumber b)
                \<and> Int_column (stockQuantity b + ordered_qty (order_books order) (bookID b))
                \<and> Int_column (soldNumber b - ordered_qty (order_books order) (bookID b))"
    proof (intro ballI impI)
      fix b assume b: "b \<in> set (books d)"
        and k: "bookID b \<in> set (map ob_bookID (order_books order))"
      from bounds b k have
        "- 2147483648 \<le> stockQuantity b"
        "stockQuantity b + ordered_qty (order_books order) (bookID b) \<le> 2147483647"
        "- 2147483648 \<le> soldNumber b - ordered_qty (order_books order) (bookID b)"
        "soldNumber b \<le> 2147483647"
        by simp_all
      with nn[of "bookID b"]
      show "Int_column (stockQuantity b) \<and> Int_column (soldNumber b)
                \<and> Int_column (stockQuantity b + ordered_qty (order_books order) (bookID b))
                \<and> Int_column (soldNumber b - ordered_qty (order_books order) (bookID b))"
        by (simp add: Int_column_def)
    qed
    from cancelOrder_ok[OF f p restore_stock_succeeds[OF ex fits]] show ?thesis by simp
  qed
  have c3c: "cancelOrder d oid = (Inl (Prisma P2020), d)"
    if a: "findUnique orderID oid (orders d) = Some order \<and> status order = pending
        \<and> order_books order = l # ls
        \<and> findUnique bookID (ob_bookID l) (books d) = Some b
        \<and> (2147483647 < stockQuantity b + quantity l
             \<or> soldNumber b - quantity l < - 2147483648)"
  proof -
    from a have f: "findUnique orderID oid (orders d) = Some order" and p: "status order = pending"
      and ls: "order_books order = l # ls"
      and b: "findUnique bookID (ob_bookID l) (books d) = Some b"
      and over: "2147483647 < stockQuantity b + quantity l
             \<or> soldNumber b - quantity l < - 2147483648"
      by simp_all
    from restore_stock_overflow[OF b over] have "restore_stock (books d) (order_books order) = Inl (Prisma P2020)"
      unfolding ls .
    then show ?thesis
      unfolding cancelOrder_def transaction_def cancelOrder_body_def by (simp add: f p)
  qed
  have c4: "fst (cancelOrder d oid) = Inr (created\<lparr> status := canceled \<rparr>)
        \<and> list_all (\<lambda>l. findUnique bookID (ob_bookID l) (books d0) \<noteq> None
                     \<and> findUnique bookID (ob_bookID l) (books (snd (cancelOrder d oid)))
                          = findUnique bookID (ob_bookID l) (books d0)) (order_books created)
        \<and> (\<forall>k. k \<notin> set (map ob_bookID (order_books created)) \<longrightarrow>
              findUnique bookID k (books (snd (cancelOrder d oid))) = findUnique bookID k (books d))
        \<and> map_option status (findUnique orderID oid (orders (snd (cancelOrder d oid))))
            = Some canceled"
    if a: "book_table (books d0) \<and> createOrder nm d0 orderData oid = (Inr created, d1)
        \<and> book_table (books d) \<and> findUnique orderID oid (orders d) = Some created
        \<and> list_all (\<lambda>l. findUnique bookID (ob_bookID l) (books d)
                          = findUnique bookID (ob_bookID l) (books d1)) (order_books created)"
  proof -
    from a have t0: "book_table (books d0)" and t: "book_table (books d)"
      and cr: "createOrder nm d0 orderData oid = (Inr created, d1)"
      and f: "findUnique orderID oid (orders d) = Some created"
      and same: "\<forall>l \<in> set (order_books created). findUnique bookID (ob_bookID l) (books d)
                          = findUnique bookID (ob_bookID l) (books d1)"
      by (simp_all add: list_all_iff)
    from t0 have dist0: "distinct (map bookID (books d0))"
      and rng0: "\<forall>b \<in> set (books d0). Int_column (stockQuantity b) \<and> Int_column (soldNumber b)"
      by (simp_all add: book_table_def list_all_iff)
    from t have dist: "distinct (map bookID (books d))"
      and rng: "\<forall>b \<in> set (books d). Int_column (stockQuantity b) \<and> Int_column (soldNumber b)"
      by (simp_all add: book_table_def list_all_iff)
    define ls where "ls = order_books created"
    define req where "req = requested_qty (oc_items orderData)"
    from createOrder_success[OF cr] obtain bs tot obs where
      pi: "process_items nm (books d0) (oc_items orderData) 0 [] = Inr (bs, tot, obs)"
      and ids: "map ob_bookID ls = map item_bookID (oc_items orderData)"
      and qs: "map quantity ls = map item_quantity (oc_items orderData)"
      and pos: "\<forall>l \<in> set ls. 0 < quantity l"
      and p: "status created = pending"
      and d1: "d1 = d0\<lparr> books := bs, orders := orders d0 @ [created] \<rparr>"
      unfolding ls_def by blast
    have bs: "bs = map (\<lambda>b. sell (req (bookID b)) b) (books d0)"
      unfolding req_def by (rule process_items_books[OF dist0 pi])
    have b1: "books d1 = map (\<lambda>b. sell (req (bookID b)) b) (books d0)"
      by (simp add: d1 bs)
    have qty: "ordered_qty ls k = req k" for k
      unfolding req_def by (rule ordered_requested[OF ids qs])
    have in0: "\<exists>b0. findUnique bookID (ob_bookID l) (books d0) = Some b0" if "l \<in> set ls" for l
    proof -
      from that have "ob_bookID l \<in> set (map ob_bookID ls)" by simp
      then have "ob_bookID l \<in> set (map item_bookID (oc_items orderData))" unfolding ids .
      then obtain item where "item \<in> set (oc_items orderData)" "item_bookID item = ob_bookID l"
        by auto
      with process_items_valid[OF pi] show ?thesis by force
    qed
    have row: "findUnique bookID (ob_bookID l) (books d) = Some (sell (req (ob_bookID l)) b0)"
      if "l \<in> set ls" "findUnique bookID (ob_bookID l) (books d0) = Some b0" for l b0
      using that same unfolding ls_def[symmetric] b1 by (simp add: findUnique_sell)
    have ex: "\<forall>l \<in> set ls. ob_bookID l \<in> set (map bookID (books d)) \<and> 0 \<le> quantity l"
    proof
      fix l assume l: "l \<in> set ls"
      from in0[OF l] obtain b0 where "findUnique bookID (ob_bookID l) (books d0) = Some b0" ..
      from findUnique_Some_mem[OF row[OF l this]] pos l
      show "ob_bookID l \<in> set (map bookID (books d)) \<and> 0 \<le> quantity l" by (simp add: less_imp_le)
    qed
    have fits: "\<forall>b \<in> set (books d). bookID b \<in> set (map ob_bookID ls) \<longrightarrow>
           Int_column (stockQuantity b) \<and> Int_column (soldNumber b)
           \<and> Int_column (stockQuantity b + ordered_qty ls (bookID b))
           \<and> Int_column (soldNumber b - ordered_qty ls (bookID b))"
    proof (intro ballI impI)
      fix b assume b: "b \<in> set (books d)" and k: "bookID b \<in> set (map ob_bookID ls)"
      from k obtain l where l: "l \<in> set ls" "ob_bookID l = bookID b" by auto
      from in0[OF l(1)] obtain b0 where b0: "findUnique bookID (ob_bookID l) (books d0) = Some b0" ..
      from row[OF l(1) b0] distinct_findUnique[OF dist b] l(2)
      have eq: "b = sell (req (bookID b)) b0" by simp
      from findUnique_Some_key[OF b0] rng0 have r0: "Int_column (stockQuantity b0)" "Int_column (soldNumber b0)"
        by simp_all
      have "stockQuantity b + req (bookID b) = stockQuantity b0"
        "soldNumber b - req (bookID b) = soldNumber b0"
        by (subst eq, simp add: sell_def)+
      with rng b r0 show "Int_column (stockQuantity b) \<and> Int_column (soldNumber b)
           \<and> Int_column (stockQuantity b + ordered_qty ls (bookID b))
           \<and> Int_column (soldNumber b - ordered_qty ls (bookID b))"
        by (simp add: qty)
    qed
    have rs: "restore_stock (books d) (order_books created) =
                Inr (map (\<lambda>b. sell (- req (bookID b)) b) (books d))"
      using restore_stock_succeeds[OF ex fits] unfolding ls_def[symmetric] by (simp add: qty)
    note c = cancelOrder_ok[OF f p rs]
    have r1: "fst (cancelOrder d oid) = Inr (created\<lparr> status := canceled \<rparr>)" by (simp add: c)
    have bk: "books (snd (cancelOrder d oid)) = map (\<lambda>b. sell (- req (bookID b)) b) (books d)"
      by (simp add: c)
    have r2: "list_all (\<lambda>l. findUnique bookID (ob_bookID l) (books d0) \<noteq> None
                     \<and> findUnique bookID (ob_bookID l) (books (snd (cancelOrder d oid)))
                          = findUnique bookID (ob_bookID l) (books d0)) (order_books created)"
      unfolding list_all_iff ls_def[symmetric]
    proof
      fix l assume l: "l \<in> set ls"
      from in0[OF l] obtain b0 where b0: "findUnique bookID (ob_bookID l) (books d0) = Some b0" ..
      from row[OF l b0] have "findUnique bookID (ob_bookID l) (books (snd (cancelOrder d oid))) = Some b0"
        unfolding bk by (simp add: findUnique_restore sell_sell sell_0)
      with b0 show "findUnique bookID (ob_bookID l) (books d0) \<noteq> None
                     \<and> findUnique bookID (ob_bookID l) (books (snd (cancelOrder d oid)))
                          = findUnique bookID (ob_bookID l) (books d0)" by simp
    qed
    have r3: "\<forall>k. k \<notin> set (map ob_bookID (order_books created)) \<longrightarrow>
              findUnique bookID k (books (snd (cancelOrder d oid))) = findUnique bookID k (books d)"
    proof (intro allI impI)
      fix k assume "k \<notin> set (map ob_bookID (order_books created))"
      then have "ordered_qty ls k = 0" unfolding ls_def by (rule ordered_qty_absent)
      then have "req k = 0" by (simp add: qty)
      then show "findUnique bookID k (books (snd (cancelOrder d oid))) = findUnique bookID k (books d)"
        unfolding bk by (simp add: findUnique_restore sell_0 option.map_ident cong: option.map_cong)
    qed
    have r4: "map_option status (findUnique orderID oid (orders (snd (cancelOrder d oid)))) = Some canceled"
      using status_after_cancel[OF f] by (simp add: c)
    from r1 r2 r3 r4 show ?thesis by blast
  qed
  show ?thesis
    by (intro conjI; rule impI; (erule c1 | erule c2 | erule c3 | erule c3b | erule c3c | erule c4))
qed

theorem cancelOrder_restores_witness:
  "cancelOrder shop ''order-404'' = (Inl OrderNotFound, shop)
   \<and> cancelOrder shop_canceled ''order-100'' = (Inl OnlyPendingCanBeCanceled, shop_canceled)
   \<and> fst (cancelOrder shop_ordered ''order-100'') = Inr (order_100\<lparr> status := canceled \<rparr>)
   \<and> books (snd (cancelOrder shop_ordered ''order-100'')) =
        map (\<lambda>b. sell (- ordered_qty (order_books order_100) (bookID b)) b) (books shop_ordered)
   \<and> cancelOrder shop_full_stock ''order-100'' = (Inl (Prisma P2020), shop_full_stock)
   \<and> book_table (books shop) \<and> book_table (books shop_restocked)
   \<and> createOrder exact shop request_two ''order-100'' = (Inr order_100, shop_ordered)
   \<and> findUnique bookID ''book-002'' (books shop_restocked)
        \<noteq> findUnique bookID ''book-002'' (books shop_ordered)
   \<and> fst (cancelOrder shop_restocked ''order-100'') = Inr (order_100\<lparr> status := canceled \<rparr>)
   \<and> findUnique bookID ''book-001'' (books (snd (cancelOrder shop_restocked ''order-100'')))
        = findUnique bookID ''book-001'' (books shop)
   \<and> map_option stockQuantity
          (findUnique bookID ''book-001'' (books (snd (cancelOrder shop_restocked ''order-100''))))
        = Some 50
   \<and> findUnique bookID ''book-002'' (books (snd (cancelOrder shop_restocked ''order-100'')))
        = findUnique bookID ''book-002'' (books shop_restocked)
   \<and> map_option status
          (findUnique orderID ''order-100'' (orders (snd (cancelOrder shop_restocked ''order-100''))))
        = Some canceled"
proof -
  have h1: "findUnique orderID ''order-404'' (orders shop) = None"
    by (simp add: findUnique_def shop_def)
  have h2: "findUnique orderID ''order-100'' (orders shop_canceled) = Some (order_100\<lparr> status := canceled \<rparr>)
      \<and> status (order_100\<lparr> status := canceled \<rparr>) \<noteq> pending"
    by (simp add: findUnique_def shop_canceled_def shop_def order_100_def)
  have h3: "findUnique orderID ''order-100'' (orders shop_ordered) = Some order_100
      \<and> status order_100 = pending"
    by (simp add: findUnique_def shop_ordered_def shop_def order_100_def)
  have h3b: "findUnique orderID ''order-100'' (orders shop_ordered) = Some order_100
      \<and> status order_100 = pending
      \<and> list_all (\<lambda>l. ob_bookID l \<in> set (map bookID (books shop_ordered)) \<and> 0 \<le> quantity l)
            (order_books order_100)
      \<and> list_all (\<lambda>b. bookID b \<in> set (map ob_bookID (order_books order_100)) \<longrightarrow>
              - 2147483648 \<le> stockQuantity b
              \<and> stockQuantity b + ordered_qty (order_books order_100) (bookID b) \<le> 2147483647
              \<and> - 2147483648 \<le> soldNumber b - ordered_qty (order_books order_100) (bookID b)
              \<and> soldNumber b \<le> 2147483647)
            (books shop_ordered)"
    by (simp add: findUnique_def shop_ordered_def shop_def order_100_def Int_column_def
        ordered_qty_def)
  have h3c: "findUnique orderID ''order-100'' (orders shop_full_stock) = Some order_100
      \<and> status order_100 = pending
      \<and> order_books order_100 = \<lparr> ob_bookID = ''book-001'', priceAtTime = 100000,
                        quantity = 2, subTotal = 200000 \<rparr> # []
      \<and> findUnique bookID (ob_bookID \<lparr> ob_bookID = ''book-001'', priceAtTime = 100000,
                        quantity = 2, subTotal = 200000 \<rparr>) (books shop_full_stock)
           = Some \<lparr> bookID = ''book-001'', title = ''Dac Nhan Tam'', price = 100000,
                 stockQuantity = 2147483646, soldNumber = 12 \<rparr>
      \<and> (2147483647 < stockQuantity \<lparr> bookID = ''book-001'', title = ''Dac Nhan Tam'', price = 100000,
                 stockQuantity = 2147483646, soldNumber = 12 \<rparr>
               + quantity \<lparr> ob_bookID = ''book-001'', priceAtTime = 100000,
                        quantity = 2, subTotal = 200000 \<rparr>
           \<or> soldNumber \<lparr> bookID = ''book-001'', title = ''Dac Nhan Tam'', price = 100000,
                 stockQuantity = 2147483646, soldNumber = 12 \<rparr>
               - quantity \<lparr> ob_bookID = ''book-001'', priceAtTime = 100000,
                        quantity = 2, subTotal = 200000 \<rparr> < - 2147483648)"
    by (simp add: findUnique_def shop_full_stock_def shop_ordered_def shop_def order_100_def)
  note i3c = cancelOrder_restores[where d = shop_full_stock and oid = "''order-100''"
      and order = order_100
      and l = "\<lparr> ob_bookID = ''book-001'', priceAtTime = 100000,
                        quantity = 2, subTotal = 200000 \<rparr>"
      and ls = "[]"
      and b = "\<lparr> bookID = ''book-001'', title = ''Dac Nhan Tam'', price = 100000,
                 stockQuantity = 2147483646, soldNumber = 12 \<rparr>"]
  from i3c h3c have c3c: "cancelOrder shop_full_stock ''order-100'' = (Inl (Prisma P2020), shop_full_stock)"
    by blast
  have t0: "book_table (books shop)"
    by (simp add: book_table_def Int_column_def shop_def)
  have t: "book_table (books shop_restocked)"
    by (simp add: book_table_def Int_column_def shop_restocked_def shop_ordered_def shop_def)
  have f: "findUnique orderID ''order-100'' (orders shop_restocked) = Some order_100"
    by (simp add: findUnique_def shop_restocked_def shop_ordered_def shop_def order_100_def)
  have same: "list_all (\<lambda>l. findUnique bookID (ob_bookID l) (books shop_restocked)
                          = findUnique bookID (ob_bookID l) (books shop_ordered)) (order_books order_100)"
    by (simp add: findUnique_def shop_restocked_def shop_ordered_def shop_def order_100_def)
  have other: "findUnique bookID ''book-002'' (books shop_restocked)
        \<noteq> findUnique bookID ''book-002'' (books shop_ordered)"
    by (simp add: findUnique_def shop_restocked_def shop_ordered_def shop_def)
  have k: "''book-002'' \<notin> set (map ob_bookID (order_books order_100))"
    by (simp add: order_100_def)
  have b0: "findUnique bookID ''book-001'' (books shop) =
      Some \<lparr> bookID = ''book-001'', title = ''Dac Nhan Tam'', price = 100000,
            stockQuantity = 50, soldNumber = 10 \<rparr>"
    by (simp add: findUnique_def shop_def)
  note i1 = cancelOrder_restores[where d = shop and oid = "''order-404''"]
  note i2 = cancelOrder_restores[where d = shop_canceled and oid = "''order-100''"
      and order = "order_100\<lparr> status := canceled \<rparr>"]
  note i3 = cancelOrder_restores[where d = shop_ordered and oid = "''order-100''"
      and order = order_100]
  note i4 = cancelOrder_restores[where d = shop_restocked and oid = "''order-100''"
      and ?d0.0 = shop and nm = exact and orderData = request_two and created = order_100
      and ?d1.0 = shop_ordered]
  from i3 h3b have e3: "fst (cancelOrder shop_ordered ''order-100'') = Inr (order_100\<lparr> status := canceled \<rparr>)"
    by blast
  from i1 h1 have c1: "cancelOrder shop ''order-404'' = (Inl OrderNotFound, shop)" by blast
  from i2 h2 have c2: "cancelOrder shop_canceled ''order-100'' = (Inl OnlyPendingCanBeCanceled, shop_canceled)"
    by blast
  from i3 h3 have "case fst (cancelOrder shop_ordered ''order-100'') of
           Inl e \<Rightarrow> snd (cancelOrder shop_ordered ''order-100'') = shop_ordered
         | Inr res \<Rightarrow>
             res = order_100\<lparr> status := canceled \<rparr>
             \<and> books (snd (cancelOrder shop_ordered ''order-100'')) =
                 map (\<lambda>b. sell (- ordered_qty (order_books order_100) (bookID b)) b) (books shop_ordered)
             \<and> map_option status (findUnique orderID ''order-100'' (orders (snd (cancelOrder shop_ordered ''order-100''))))
                 = Some canceled"
    by blast
  then have c3: "books (snd (cancelOrder shop_ordered ''order-100'')) =
        map (\<lambda>b. sell (- ordered_qty (order_books order_100) (bookID b)) b) (books shop_ordered)"
    unfolding e3 by simp
  from i4 t0 shop_createOrder t f same have c4:
    "fst (cancelOrder shop_restocked ''order-100'') = Inr (order_100\<lparr> status := canceled \<rparr>)
        \<and> list_all (\<lambda>l. findUnique bookID (ob_bookID l) (books shop) \<noteq> None
                     \<and> findUnique bookID (ob_bookID l) (books (snd (cancelOrder shop_restocked ''order-100'')))
                          = findUnique bookID (ob_bookID l) (books shop)) (order_books order_100)
        \<and> (\<forall>k. k \<notin> set (map ob_bookID (order_books order_100)) \<longrightarrow>
              findUnique bookID k (books (snd (cancelOrder shop_restocked ''order-100'')))
                = findUnique bookID k (books shop_restocked))
        \<and> map_option status (findUnique orderID ''order-100'' (orders (snd (cancelOrder shop_restocked ''order-100''))))
            = Some canceled"
    by blast
  then have c41: "fst (cancelOrder shop_restocked ''order-100'') = Inr (order_100\<lparr> status := canceled \<rparr>)"
    and c42: "list_all (\<lambda>l. findUnique bookID (ob_bookID l) (books shop) \<noteq> None
                     \<and> findUnique bookID (ob_bookID l) (books (snd (cancelOrder shop_restocked ''order-100'')))
                          = findUnique bookID (ob_bookID l) (books shop)) (order_books order_100)"
    and c43: "\<forall>k. k \<notin> set (map ob_bookID (order_books order_100)) \<longrightarrow>
              findUnique bookID k (books (snd (cancelOrder shop_restocked ''order-100'')))
                = findUnique bookID k (books shop_restocked)"
    and c44: "map_option status (findUnique orderID ''order-100'' (orders (snd (cancelOrder shop_restocked ''order-100''))))
            = Some canceled"
    by blast+
  have ob: "order_books order_100 = [\<lparr> ob_bookID = ''book-001'', priceAtTime = 100000,
                        quantity = 2, subTotal = 200000 \<rparr>]"
    by (simp add: order_100_def)
  from c42 have c5: "findUnique bookID ''book-001'' (books (snd (cancelOrder shop_restocked ''order-100'')))
        = findUnique bookID ''book-001'' (books shop)"
    unfolding ob by simp
  then have c6: "map_option stockQuantity
          (findUnique bookID ''book-001'' (books (snd (cancelOrder shop_restocked ''order-100''))))
        = Some 50"
    unfolding b0 by simp
  from c43 k have c7: "findUnique bookID ''book-002'' (books (snd (cancelOrder shop_restocked ''order-100'')))
        = findUnique bookID ''book-002'' (books shop_restocked)"
    by blast
  from c1 c2 e3 c3 c3c t0 t shop_createOrder other c41 c5 c6 c7 c44 show ?thesis by blast
qed

section \<open>Properties of the payment service\<close>

lemma createPayment_failed: "isl (fst (createPayment d pd nid)) \<Longrightarrow> snd (createPayment d pd nid) = d"
  unfolding createPayment_def by (simp add: catch_with_snd catch_with_isl transaction_isl)

lemma createPayment_Inr:
  "createPayment d pd nid = (Inr payment, d') \<longleftrightarrow> createPayment_body pd nid d = Inr (payment, d')"
  unfolding createPayment_def by (simp add: catch_with_Inr transaction_Inr)

lemma createPayment_body_Inr:
  assumes "createPayment_body pd nid d = Inr (payment, d')"
  shows "\<exists>order. findUnique orderID (pc_orderID pd) (orders d) = Some order
     \<and> findUnique payment_orderID (pc_orderID pd) (payments d) = None
     \<and> pc_amount pd = totalAmount order
     \<and> payment = \<lparr> paymentID = nid, payment_orderID = pc_orderID pd,
                     payment_status = pay_processing, payment_method = pc_method pd,
                     amount = pc_amount pd, paidAt = None \<rparr>
     \<and> d' = d\<lparr> payments := payments d @ [payment] \<rparr>"
  using assms unfolding createPayment_body_def create_payment_def create_row_def
  by (auto simp: Let_def split: option.splits if_splits sum.splits)

text \<open>
  Claim C6.  \<open>createPayment\<close> makes its checks in this order.  It fails with "Order
  not found" when the order does not exist; with "Payment already exists for this
  order" when the order has a payment (in a store that keeps the foreign key of
  payments, whenever a payment for that \<open>orderID\<close> exists); with "Payment amount does
  not match order total" when the order has no payment and the amount differs from its
  \<open>totalAmount\<close>, and it fails in any case when the amount differs.  Every failure
  leaves the store, and so the payment table, unchanged.  A success appends one payment
  whose status is \<open>processing\<close>, and the call succeeds when the order exists, has no
  payment, the amount is its total and the identifier drawn is new.
\<close>
theorem createPayment_checks:
  "(findUnique orderID (pc_orderID pd) (orders d) = None \<longrightarrow>
      createPayment d pd nid = (Inl OrderNotFound, d))
   \<and> (findUnique orderID (pc_orderID pd) (orders d) = Some order
        \<and> findUnique payment_orderID (pc_orderID pd) (payments d) = Some existing \<longrightarrow>
      createPayment d pd nid = (Inl PaymentAlreadyExists, d))
   \<and> (payment_orders_exist d
        \<and> findUnique payment_orderID (pc_orderID pd) (payments d) = Some existing \<longrightarrow>
      createPayment d pd nid = (Inl PaymentAlreadyExists, d))
   \<and> (findUnique orderID (pc_orderID pd) (orders d) = Some order
        \<and> findUnique payment_orderID (pc_orderID pd) (payments d) = None
        \<and> pc_amount pd \<noteq> totalAmount order \<longrightarrow>
      createPayment d pd nid = (Inl (AmountDoesNotMatch (pc_amount pd) (totalAmount order)), d))
   \<and> (findUnique orderID (pc_orderID pd) (orders d) = Some order
        \<and> pc_amount pd \<noteq> totalAmount order \<longrightarrow>
      isl (fst (createPayment d pd nid)))
   \<and> (isl (fst (createPayment d pd nid)) \<longrightarrow> snd (createPayment d pd nid) = d)
   \<and> (createPayment d pd nid = (Inr payment, d') \<longrightarrow>
      payment_status payment = pay_processing \<and> payment_orderID payment = pc_orderID pd
      \<and> amount payment = pc_amount pd \<and> payments d' = payments d @ [payment])
   \<and> (findUnique orderID (pc_orderID pd) (orders d) = Some order
        \<and> findUnique payment_orderID (pc_orderID pd) (payments d) = None
        \<and> pc_amount pd = totalAmount order \<and> nid \<notin> set (map paymentID (payments d)) \<longrightarrow>
      \<not> isl (fst (createPayment d pd nid)))"
proof (intro conjI impI)
  assume "findUnique orderID (pc_orderID pd) (orders d) = None"
  then show "createPayment d pd nid = (Inl OrderNotFound, d)"
    by (simp add: createPayment_def createPayment_body_def transaction_def catch_with_def
        createPayment_catch_def)
next
  assume "findUnique orderID (pc_orderID pd) (orders d) = Some order
        \<and> findUnique payment_orderID (pc_orderID pd) (payments d) = Some existing"
  then show "createPayment d pd nid = (Inl PaymentAlreadyExists, d)"
    by (simp add: createPayment_def createPayment_body_def transaction_def catch_with_def
        createPayment_catch_def)
next
  assume a: "payment_orders_exist d
        \<and> findUnique payment_orderID (pc_orderID pd) (payments d) = Some existing"
  then have "existing \<in> set (payments d)" "payment_orderID existing = pc_orderID pd"
    by (auto dest: findUnique_Some_key)
  moreover from a have "\<forall>p \<in> set (payments d). payment_orderID p \<in> set (map orderID (orders d))"
    by (simp add: payment_orders_exist_def list_all_iff)
  ultimately have "pc_orderID pd \<in> set (map orderID (orders d))" by metis
  then obtain ord where "findUnique orderID (pc_orderID pd) (orders d) = Some ord"
    by (cases "findUnique orderID (pc_orderID pd) (orders d)") (simp_all add: findUnique_None_iff)
  with a show "createPayment d pd nid = (Inl PaymentAlreadyExists, d)"
    by (simp add: createPayment_def createPayment_body_def transaction_def catch_with_def
        createPayment_catch_def)
next
  assume "findUnique orderID (pc_orderID pd) (orders d) = Some order
        \<and> findUnique payment_orderID (pc_orderID pd) (payments d) = None
        \<and> pc_amount pd \<noteq> totalAmount order"
  then show "createPayment d pd nid = (Inl (AmountDoesNotMatch (pc_amount pd) (totalAmount order)), d)"
    by (simp add: createPayment_def createPayment_body_def transaction_def catch_with_def
        createPayment_catch_def)
next
  assume "findUnique orderID (pc_orderID pd) (orders d) = Some order
        \<and> pc_amount pd \<noteq> totalAmount order"
  then show "isl (fst (createPayment d pd nid))"
    by (cases "findUnique payment_orderID (pc_orderID pd) (payments d)")
      (simp_all add: createPayment_def createPayment_body_def transaction_def catch_with_def
        createPayment_catch_def)
next
  assume "isl (fst (createPayment d pd nid))"
  then show "snd (createPayment d pd nid) = d" by (rule createPayment_failed)
next
  assume "createPayment d pd nid = (Inr payment, d')"
  then have "createPayment_body pd nid d = Inr (payment, d')" by (simp add: createPayment_Inr)
  from createPayment_body_Inr[OF this]
  have *: "payment_status payment = pay_processing \<and> payment_orderID payment = pc_orderID pd
      \<and> amount payment = pc_amount pd \<and> payments d' = payments d @ [payment]"
    by auto
  from * show "payment_status payment = pay_processing" by simp
  from * show "payment_orderID payment = pc_orderID pd" by simp
  from * show "amount payment = pc_amount pd" by simp
  from * show "payments d' = payments d @ [payment]" by simp
next
  assume a: "findUnique orderID (pc_orderID pd) (orders d) = Some order
        \<and> findUnique payment_orderID (pc_orderID pd) (payments d) = None
        \<and> pc_amount pd = totalAmount order \<and> nid \<notin> set (map paymentID (payments d))"
  then have "pc_orderID pd \<notin> set (map payment_orderID (payments d))"
    by (simp add: findUnique_None_iff)
  with a show "\<not> isl (fst (createPayment d pd nid))"
    by (simp add: createPayment_def createPayment_body_def transaction_def catch_with_def
        create_payment_def create_row_def Let_def)
qed

lemmas payment_eval =
  createPayment_def createPayment_body_def createPayment_catch_def create_payment_def
  updatePaymentStatus_def updatePaymentStatus_catch_def updateData_def
  transaction_def catch_with_def findUnique_def update_row_def create_row_def Let_def

lemmas shop_defs =
  shop_def shop_ordered_def shop_canceled_def order_100_def payment_100_def shop_paying_def
  shop_pay_failed_def

theorem createPayment_checks_witness:
  "createPayment shop_ordered \<lparr> pc_orderID = ''order-404'', pc_method = cod, pc_amount = 200000 \<rparr> ''pay-101''
      = (Inl OrderNotFound, shop_ordered)
   \<and> createPayment shop_paying \<lparr> pc_orderID = ''order-100'', pc_method = cod, pc_amount = 200000 \<rparr> ''pay-101''
      = (Inl PaymentAlreadyExists, shop_paying)
   \<and> createPayment shop_ordered \<lparr> pc_orderID = ''order-100'', pc_method = cod, pc_amount = 199999 \<rparr> ''pay-100''
      = (Inl (AmountDoesNotMatch 199999 200000), shop_ordered)
   \<and> createPayment shop_ordered \<lparr> pc_orderID = ''order-100'', pc_method = cod, pc_amount = 200000 \<rparr> ''pay-100''
      = (Inr payment_100, shop_paying)
   \<and> payment_status payment_100 = pay_processing
   \<and> payments shop_paying = payments shop_ordered @ [payment_100]"
proof -
  let ?bad_order = "\<lparr> pc_orderID = ''order-404'', pc_method = cod, pc_amount = 200000 \<rparr>"
  let ?good = "\<lparr> pc_orderID = ''order-100'', pc_method = cod, pc_amount = 200000 \<rparr>"
  let ?short = "\<lparr> pc_orderID = ''order-100'', pc_method = cod, pc_amount = 199999 \<rparr>"
  have h1: "findUnique orderID (pc_orderID ?bad_order) (orders shop_ordered) = None"
    by (simp add: findUnique_def shop_defs)
  have h2: "findUnique orderID (pc_orderID ?good) (orders shop_paying) = Some order_100
      \<and> findUnique payment_orderID (pc_orderID ?good) (payments shop_paying) = Some payment_100"
    by (simp add: findUnique_def shop_defs)
  have h3: "findUnique orderID (pc_orderID ?short) (orders shop_ordered) = Some order_100
      \<and> findUnique payment_orderID (pc_orderID ?short) (payments shop_ordered) = None
      \<and> pc_amount ?short \<noteq> totalAmount order_100"
    by (simp add: findUnique_def shop_defs)
  have h4: "createPayment shop_ordered ?good ''pay-100'' = (Inr payment_100, shop_paying)"
    by (simp add: payment_eval shop_defs)
  note t1 = createPayment_checks[where pd = "?bad_order" and d = shop_ordered and nid = "''pay-101''"]
  note t2 = createPayment_checks[where pd = "?good" and d = shop_paying and order = order_100
      and existing = payment_100 and nid = "''pay-101''"]
  note t3 = createPayment_checks[where pd = "?short" and d = shop_ordered and order = order_100
      and nid = "''pay-100''"]
  note t4 = createPayment_checks[where pd = "?good" and d = shop_ordered and nid = "''pay-100''"
      and payment = payment_100 and d' = shop_paying]
  from t1 h1 have c1: "createPayment shop_ordered ?bad_order ''pay-101'' = (Inl OrderNotFound, shop_ordered)"
    by blast
  from t2 h2 have c2: "createPayment shop_paying ?good ''pay-101'' = (Inl PaymentAlreadyExists, shop_paying)"
    by blast
  from t3 h3 have "createPayment shop_ordered ?short ''pay-100''
      = (Inl (AmountDoesNotMatch (pc_amount ?short) (totalAmount order_100)), shop_ordered)"
    by blast
  then have c3: "createPayment shop_ordered ?short ''pay-100''
      = (Inl (AmountDoesNotMatch 199999 200000), shop_ordered)"
    by (simp add: order_100_def)
  from t4 h4 have c4: "payment_status payment_100 = pay_processing
      \<and> payments shop_paying = payments shop_ordered @ [payment_100]"
    by blast
  from c1 c2 c3 h4 c4 show ?thesis by blast
qed

lemma paymentID_updateData: "paymentID (updateData s now p) = paymentID p"
  by (simp add: updateData_def)

lemma findUnique_updated_payment:
  "findUnique paymentID pid (map (\<lambda>r. if paymentID r = pid then updateData s now r else r) rows)
     = map_option (updateData s now) (findUnique paymentID pid rows)"
  by (subst findUnique_map_update) (simp_all add: paymentID_updateData)

lemma updatePaymentStatus_missing:
  "findUnique paymentID pid (payments d) = None \<Longrightarrow>
     updatePaymentStatus d pid s now = (Inl PaymentNotFound, d)"
  by (simp add: updatePaymentStatus_def update_row_def findUnique_None_iff catch_with_def
      updatePaymentStatus_catch_def)

lemma updatePaymentStatus_other:
  assumes "findUnique paymentID pid (payments d) = Some p" and "s \<noteq> pay_paid"
  shows "updatePaymentStatus d pid s now =
     (Inr (p\<lparr> payment_status := s \<rparr>),
      d\<lparr> payments := map (\<lambda>r. if paymentID r = pid then r\<lparr> payment_status := s \<rparr> else r)
                      (payments d) \<rparr>)"
proof -
  from assms(1) have "pid \<in> set (map paymentID (payments d))"
    by (auto dest: findUnique_Some_key)
  then have up: "update_row paymentID pid (updateData s now) (payments d) =
      Inr (map (\<lambda>r. if paymentID r = pid then updateData s now r else r) (payments d))"
    by (simp add: update_row_def)
  have same: "updateData s now = (\<lambda>r. r\<lparr> payment_status := s \<rparr>)"
    using assms(2) by (simp add: updateData_def fun_eq_iff)
  show ?thesis
    unfolding updatePaymentStatus_def up
    by (simp add: findUnique_updated_payment assms catch_with_def same)
qed

lemma updatePaymentStatus_paid:
  assumes "findUnique paymentID pid (payments d) = Some p"
    and "payment_orderID p \<in> set (map orderID (orders d))"
  shows "updatePaymentStatus d pid pay_paid now =
     (Inr (p\<lparr> payment_status := pay_paid, paidAt := Some now \<rparr>),
      d\<lparr> payments := map (\<lambda>r. if paymentID r = pid
                                then r\<lparr> payment_status := pay_paid, paidAt := Some now \<rparr> else r)
                      (payments d),
         orders := map (\<lambda>row. if orderID row = payment_orderID p
                               then row\<lparr> status := completed \<rparr> else row) (orders d) \<rparr>)"
proof -
  from assms(1) have "pid \<in> set (map paymentID (payments d))"
    by (auto dest: findUnique_Some_key)
  then have up: "update_row paymentID pid (updateData pay_paid now) (payments d) =
      Inr (map (\<lambda>r. if paymentID r = pid then updateData pay_paid now r else r) (payments d))"
    by (simp add: update_row_def)
  have same: "updateData pay_paid now = (\<lambda>r. r\<lparr> payment_status := pay_paid, paidAt := Some now \<rparr>)"
    by (simp add: updateData_def fun_eq_iff)
  have uo: "update_row orderID (payment_orderID p) (\<lambda>row. row\<lparr> status := completed \<rparr>) (orders d) =
      Inr (map (\<lambda>row. if orderID row = payment_orderID p
                               then row\<lparr> status := completed \<rparr> else row) (orders d))"
    using assms(2) by (simp add: update_row_def)
  show ?thesis
    unfolding updatePaymentStatus_def up
    by (simp add: findUnique_updated_payment assms(1) catch_with_def same uo)
qed

lemma status_after_paid:
  "k \<in> set (map orderID rows) \<Longrightarrow>
   map_option status (findUnique orderID k
      (map (\<lambda>row. if orderID row = k then row\<lparr> status := completed \<rparr> else row) rows))
     = Some completed"
proof -
  assume "k \<in> set (map orderID rows)"
  then obtain r where "findUnique orderID k rows = Some r"
    by (cases "findUnique orderID k rows") (simp_all add: findUnique_None_iff)
  then show ?thesis by (subst findUnique_map_update) simp_all
qed

lemma updateData_paid:
  "updateData pay_paid now = (\<lambda>r. r\<lparr> payment_status := pay_paid, paidAt := Some now \<rparr>)"
  by (simp add: updateData_def fun_eq_iff)

lemma updateData_other: "s \<noteq> pay_paid \<Longrightarrow> updateData s now = (\<lambda>r. r\<lparr> payment_status := s \<rparr>)"
  by (simp add: updateData_def fun_eq_iff)

lemma payment_after_update:
  "findUnique paymentID pid (payments d) = Some p \<Longrightarrow>
   findUnique paymentID pid (payments (snd (updatePaymentStatus d pid s now))) = Some (updateData s now p)
     \<or> isl (fst (updatePaymentStatus d pid s now))"
  unfolding updatePaymentStatus_def catch_with_def update_row_def
  by (auto simp: findUnique_updated_payment findUnique_None_iff split: sum.splits option.splits)

text \<open>
  Claim C7.  For an existing payment, \<open>updatePaymentStatus\<close> with target \<open>paid\<close>
  stores the status with \<open>paidAt\<close> set to the time read and sets the status of the
  owning order, and of no other, to \<open>completed\<close> (the owning order exists by the foreign
  key of payments); with any other target it stores the status, leaves \<open>paidAt\<close> as
  it was and leaves the order table unchanged.
\<close>
theorem updatePaymentStatus_paid_effects:
  assumes "findUnique paymentID pid (payments d) = Some p"
  shows "(payment_orderID p \<in> set (map orderID (orders d)) \<longrightarrow>
           fst (updatePaymentStatus d pid pay_paid now)
             = Inr (p\<lparr> payment_status := pay_paid, paidAt := Some now \<rparr>)
           \<and> findUnique paymentID pid (payments (snd (updatePaymentStatus d pid pay_paid now)))
             = Some (p\<lparr> payment_status := pay_paid, paidAt := Some now \<rparr>)
           \<and> map_option status (findUnique orderID (payment_orderID p)
                 (orders (snd (updatePaymentStatus d pid pay_paid now)))) = Some completed
           \<and> orders (snd (updatePaymentStatus d pid pay_paid now))
             = map (\<lambda>row. if orderID row = payment_orderID p
                             then row\<lparr> status := completed \<rparr> else row) (orders d))
       \<and> (s \<noteq> pay_paid \<longrightarrow>
           fst (updatePaymentStatus d pid s now) = Inr (p\<lparr> payment_status := s \<rparr>)
           \<and> findUnique paymentID pid (payments (snd (updatePaymentStatus d pid s now)))
             = Some (p\<lparr> payment_status := s \<rparr>)
           \<and> map_option paidAt (findUnique paymentID pid
                 (payments (snd (updatePaymentStatus d pid s now)))) = Some (paidAt p)
           \<and> orders (snd (updatePaymentStatus d pid s now)) = orders d)"
proof (intro conjI impI)
  assume fk: "payment_orderID p \<in> set (map orderID (orders d))"
  note r = updatePaymentStatus_paid[OF assms fk, of now]
  show "fst (updatePaymentStatus d pid pay_paid now)
             = Inr (p\<lparr> payment_status := pay_paid, paidAt := Some now \<rparr>)"
    by (simp add: r)
  from payment_after_update[OF assms, of pay_paid now]
  show "findUnique paymentID pid (payments (snd (updatePaymentStatus d pid pay_paid now)))
             = Some (p\<lparr> payment_status := pay_paid, paidAt := Some now \<rparr>)"
    by (simp add: r updateData_paid)
  show "map_option status (findUnique orderID (payment_orderID p)
                 (orders (snd (updatePaymentStatus d pid pay_paid now)))) = Some completed"
    using status_after_paid[OF fk] by (simp add: r)
  show "orders (snd (updatePaymentStatus d pid pay_paid now))
             = map (\<lambda>row. if orderID row = payment_orderID p
                             then row\<lparr> status := completed \<rparr> else row) (orders d)"
    by (simp add: r)
next
  assume s: "s \<noteq> pay_paid"
  note r = updatePaymentStatus_other[OF assms s, of now]
  show "fst (updatePaymentStatus d pid s now) = Inr (p\<lparr> payment_status := s \<rparr>)"
    by (simp add: r)
  from payment_after_update[OF assms, of s now]
  show f: "findUnique paymentID pid (payments (snd (updatePaymentStatus d pid s now)))
             = Some (p\<lparr> payment_status := s \<rparr>)"
    using s by (simp add: r updateData_other)
  show "map_option paidAt (findUnique paymentID pid
                 (payments (snd (updatePaymentStatus d pid s now)))) = Some (paidAt p)"
    by (simp add: f)
  show "orders (snd (updatePaymentStatus d pid s now)) = orders d"
    by (simp add: r)
qed

theorem updatePaymentStatus_paid_effects_witness:
  "findUnique paymentID ''pay-100'' (payments shop_paying) = Some payment_100
   \<and> fst (updatePaymentStatus shop_paying ''pay-100'' pay_paid 42)
       = Inr (payment_100\<lparr> payment_status := pay_paid, paidAt := Some 42 \<rparr>)
   \<and> map_option status (findUnique orderID ''order-100''
         (orders (snd (updatePaymentStatus shop_paying ''pay-100'' pay_paid 42)))) = Some completed
   \<and> fst (updatePaymentStatus shop_paying ''pay-100'' pay_failed 42)
       = Inr (payment_100\<lparr> payment_status := pay_failed \<rparr>)
   \<and> map_option paidAt (findUnique paymentID ''pay-100''
         (payments (snd (updatePaymentStatus shop_paying ''pay-100'' pay_failed 42)))) = Some None
   \<and> orders (snd (updatePaymentStatus shop_paying ''pay-100'' pay_failed 42)) = orders shop_paying"
proof -
  have h: "findUnique paymentID ''pay-100'' (payments shop_paying) = Some payment_100"
    by (simp add: findUnique_def shop_defs)
  have fk: "payment_orderID payment_100 \<in> set (map orderID (orders shop_paying))"
    by (simp add: shop_defs)
  have ne: "pay_failed \<noteq> pay_paid" by simp
  have oid: "payment_orderID payment_100 = ''order-100''" and pa: "paidAt payment_100 = None"
    by (simp_all add: payment_100_def)
  note t = updatePaymentStatus_paid_effects[OF h, of 42 pay_failed]
  from t fk have c1: "fst (updatePaymentStatus shop_paying ''pay-100'' pay_paid 42)
       = Inr (payment_100\<lparr> payment_status := pay_paid, paidAt := Some 42 \<rparr>)
     \<and> map_option status (findUnique orderID (payment_orderID payment_100)
         (orders (snd (updatePaymentStatus shop_paying ''pay-100'' pay_paid 42)))) = Some completed"
    by blast
  from t ne have c2: "fst (updatePaymentStatus shop_paying ''pay-100'' pay_failed 42)
       = Inr (payment_100\<lparr> payment_status := pay_failed \<rparr>)
     \<and> map_option paidAt (findUnique paymentID ''pay-100''
         (payments (snd (updatePaymentStatus shop_paying ''pay-100'' pay_failed 42)))) = Some (paidAt payment_100)
     \<and> orders (snd (updatePaymentStatus shop_paying ''pay-100'' pay_failed 42)) = orders shop_paying"
    by blast
  from h c1 c2 show ?thesis unfolding oid pa by blast
qed

text \<open>
  Claim C10.  \<open>updatePaymentStatus\<close> fails with "Payment not found" when the payment
  does not exist.  For an existing payment, whatever its current status, and any target
  status the call succeeds and the stored status is the target; with target \<open>paid\<close>
  that stamps \<open>paidAt\<close> and completes the owning order, also for a payment that had
  failed.  In a store that keeps the foreign key of payments the call fails only when
  the payment does not exist.
\<close>
theorem updatePaymentStatus_no_precondition:
  "(findUnique paymentID pid (payments d) = None \<longrightarrow>
      updatePaymentStatus d pid s now = (Inl PaymentNotFound, d))
   \<and> (findUnique paymentID pid (payments d) = Some p
        \<and> payment_orderID p \<in> set (map orderID (orders d)) \<longrightarrow>
      fst (updatePaymentStatus d pid s now) = Inr (updateData s now p)
      \<and> findUnique paymentID pid (payments (snd (updatePaymentStatus d pid s now)))
           = Some (updateData s now p)
      \<and> payment_status (updateData s now p) = s)
   \<and> (findUnique paymentID pid (payments d) = Some p
        \<and> payment_orderID p \<in> set (map orderID (orders d)) \<longrightarrow>
      fst (updatePaymentStatus d pid pay_paid now)
           = Inr (p\<lparr> payment_status := pay_paid, paidAt := Some now \<rparr>)
      \<and> map_option status (findUnique orderID (payment_orderID p)
           (orders (snd (updatePaymentStatus d pid pay_paid now)))) = Some completed)
   \<and> (payment_orders_exist d \<and> isl (fst (updatePaymentStatus d pid s now)) \<longrightarrow>
      findUnique paymentID pid (payments d) = None)"
proof (intro conjI impI)
  assume "findUnique paymentID pid (payments d) = None"
  then show "updatePaymentStatus d pid s now = (Inl PaymentNotFound, d)"
    by (rule updatePaymentStatus_missing)
next
  assume a: "findUnique paymentID pid (payments d) = Some p
        \<and> payment_orderID p \<in> set (map orderID (orders d))"
  then have f: "findUnique paymentID pid (payments d) = Some p"
    and fk: "payment_orderID p \<in> set (map orderID (orders d))" by simp_all
  have r: "fst (updatePaymentStatus d pid s now) = Inr (updateData s now p)
      \<and> findUnique paymentID pid (payments (snd (updatePaymentStatus d pid s now)))
           = Some (updateData s now p)"
  proof (cases "s = pay_paid")
    case True
    from payment_after_update[OF f, of pay_paid now] show ?thesis
      unfolding True by (simp add: updatePaymentStatus_paid[OF f fk] updateData_paid)
  next
    case False
    from payment_after_update[OF f, of s now] show ?thesis
      by (simp add: updatePaymentStatus_other[OF f False] updateData_other[OF False])
  qed
  from r show "fst (updatePaymentStatus d pid s now) = Inr (updateData s now p)" by simp
  from r show "findUnique paymentID pid (payments (snd (updatePaymentStatus d pid s now)))
           = Some (updateData s now p)" by simp
  show "payment_status (updateData s now p) = s" by (simp add: updateData_def)
  show "fst (updatePaymentStatus d pid pay_paid now)
           = Inr (p\<lparr> payment_status := pay_paid, paidAt := Some now \<rparr>)"
    by (simp add: updatePaymentStatus_paid[OF f fk])
  show "map_option status (findUnique orderID (payment_orderID p)
           (orders (snd (updatePaymentStatus d pid pay_paid now)))) = Some completed"
    using status_after_paid[OF fk] by (simp add: updatePaymentStatus_paid[OF f fk])
next
  assume a: "payment_orders_exist d \<and> isl (fst (updatePaymentStatus d pid s now))"
  show "findUnique paymentID pid (payments d) = None"
  proof (rule ccontr)
    assume "findUnique paymentID pid (payments d) \<noteq> None"
    then obtain p where f: "findUnique paymentID pid (payments d) = Some p" by auto
    then have "p \<in> set (payments d)" by (auto dest: findUnique_Some_key)
    with a have fk: "payment_orderID p \<in> set (map orderID (orders d))"
      by (simp add: payment_orders_exist_def list_all_iff)
    have "\<not> isl (fst (updatePaymentStatus d pid s now))"
    proof (cases "s = pay_paid")
      case True
      then show ?thesis by (simp add: updatePaymentStatus_paid[OF f fk])
    next
      case False
      then show ?thesis by (simp add: updatePaymentStatus_other[OF f False])
    qed
    with a show False by simp
  qed
qed

theorem updatePaymentStatus_no_precondition_witness:
  "updatePaymentStatus shop_pay_failed ''pay-404'' pay_paid 42 = (Inl PaymentNotFound, shop_pay_failed)
   \<and> findUnique paymentID ''pay-100'' (payments shop_pay_failed)
       = Some (payment_100\<lparr> payment_status := pay_failed \<rparr>)
   \<and> fst (updatePaymentStatus shop_pay_failed ''pay-100'' pay_paid 42)
       = Inr (payment_100\<lparr> payment_status := pay_paid, paidAt := Some 42 \<rparr>)
   \<and> map_option status (findUnique orderID ''order-100''
         (orders (snd (updatePaymentStatus shop_pay_failed ''pay-100'' pay_paid 42)))) = Some completed
   \<and> payment_orders_exist shop_pay_failed"
proof -
  have n: "findUnique paymentID ''pay-404'' (payments shop_pay_failed) = None"
    by (simp add: findUnique_def shop_defs)
  have h: "findUnique paymentID ''pay-100'' (payments shop_pay_failed)
       = Some (payment_100\<lparr> payment_status := pay_failed \<rparr>)"
    by (simp add: findUnique_def shop_defs)
  have fk: "payment_orderID (payment_100\<lparr> payment_status := pay_failed \<rparr>)
       \<in> set (map orderID (orders shop_pay_failed))"
    by (simp add: shop_defs)
  have oid: "payment_orderID (payment_100\<lparr> payment_status := pay_failed \<rparr>) = ''order-100''"
    by (simp add: payment_100_def)
  have inv: "payment_orders_exist shop_pay_failed"
    by (simp add: payment_orders_exist_def shop_defs)
  from updatePaymentStatus_no_precondition[where pid = "''pay-404''" and d = shop_pay_failed
      and s = pay_paid and now = 42] n
  have c1: "updatePaymentStatus shop_pay_failed ''pay-404'' pay_paid 42 = (Inl PaymentNotFound, shop_pay_failed)"
    by blast
  from updatePaymentStatus_no_precondition[where pid = "''pay-100''" and d = shop_pay_failed
      and p = "payment_100\<lparr> payment_status := pay_failed \<rparr>" and now = 42] h fk
  have c2: "fst (updatePaymentStatus shop_pay_failed ''pay-100'' pay_paid 42)
       = Inr (payment_100\<lparr> payment_status := pay_failed \<rparr>\<lparr> payment_status := pay_paid, paidAt := Some 42 \<rparr>)
     \<and> map_option status (findUnique orderID (payment_orderID (payment_100\<lparr> payment_status := pay_failed \<rparr>))
         (orders (snd (updatePaymentStatus shop_pay_failed ''pay-100'' pay_paid 42)))) = Some completed"
    by blast
  from c1 h c2 inv show ?thesis unfolding oid by simp
qed

section \<open>Properties of the cart service\<close>


lemma find_or_create_cart_found:
  "findUnique cart_userID uid (carts d) = Some c \<Longrightarrow>
     find_or_create_cart fk uid newCartID d = Inr (c, d)"
  by (simp add: find_or_create_cart_def)

lemma find_or_create_cart_new:
  assumes "findUnique cart_userID uid (carts d) = None" and "cart_available fk d uid newCartID"
  shows "find_or_create_cart fk uid newCartID d =
     Inr (\<lparr> cartID = newCartID, cart_userID = uid \<rparr>,
          d\<lparr> carts := carts d @ [\<lparr> cartID = newCartID, cart_userID = uid \<rparr>] \<rparr>)"
proof -
  from assms have fresh: "newCartID \<notin> set (map cartID (carts d))"
    and fkok: "\<not> (fk \<and> uid \<notin> set (map userID (users d)))"
    by (auto simp: cart_available_def split: if_splits)
  from assms(1) have nu: "uid \<notin> set (map cart_userID (carts d))"
    by (simp add: findUnique_None_iff)
  have "create_cart fk \<lparr> cartID = newCartID, cart_userID = uid \<rparr> d
      = Inr (d\<lparr> carts := carts d @ [\<lparr> cartID = newCartID, cart_userID = uid \<rparr>] \<rparr>)"
    using fresh fkok nu by (simp add: create_cart_def create_row_def)
  with assms(1) show ?thesis by (simp add: find_or_create_cart_def)
qed

lemma find_or_create_cart_Inr:
  "find_or_create_cart fk uid newCartID d = Inr (c, tx1) \<Longrightarrow>
     cartID c = cart_of d uid newCartID \<and> cartBooks tx1 = cartBooks d \<and> books tx1 = books d"
  unfolding find_or_create_cart_def create_cart_def create_row_def cart_of_def
  by (auto split: option.splits if_splits sum.splits)


lemma put_cart_item_existing:
  assumes "findUnique cartID_bookID (cid, ci_bookID it) rows = Some existing"
    and "Int_column (cb_quantity existing + ci_quantity it)"
  shows "put_cart_item cid it now rows =
     Inr (map (\<lambda>r. if cartID_bookID r = (cid, ci_bookID it)
                    then r\<lparr> cb_quantity := cb_quantity existing + ci_quantity it,
                            isSelected := (case ci_isSelected it of None \<Rightarrow> True | Some b \<Rightarrow> b) \<rparr>
                    else r) rows)"
proof -
  from assms(1) have "(cid, ci_bookID it) \<in> set (map cartID_bookID rows)"
    by (rule findUnique_Some_mem)
  with assms show ?thesis
    by (simp add: put_cart_item_def update_row_def)
qed


lemma put_cart_item_overflow:
  "findUnique cartID_bookID (cid, ci_bookID it) rows = Some existing \<Longrightarrow>
     \<not> Int_column (cb_quantity existing + ci_quantity it) \<Longrightarrow>
     put_cart_item cid it now rows = Inl (Prisma P2020)"
  "findUnique cartID_bookID (cid, ci_bookID it) rows = None \<Longrightarrow>
     \<not> Int_column (ci_quantity it) \<Longrightarrow>
     put_cart_item cid it now rows = Inl (Prisma P2020)"
  by (simp_all add: put_cart_item_def)




lemma addItemToCart_ok:
  assumes avail: "cart_available fk d uid newCartID"
    and book: "findUnique bookID (ci_bookID it) (books d) = Some book"
    and q: "ci_quantity it \<le> stockQuantity book"
    and put: "put_cart_item (cart_of d uid newCartID) it now (cartBooks d) = Inr cbs"
  shows "\<not> isl (fst (addItemToCart fk d uid it newCartID now))
     \<and> cartBooks (snd (addItemToCart fk d uid it newCartID now)) = cbs
     \<and> books (snd (addItemToCart fk d uid it newCartID now)) = books d"
proof (cases "findUnique cart_userID uid (carts d)")
  case None
  let ?c = "\<lparr> cartID = newCartID, cart_userID = uid \<rparr>"
  from None avail have fresh: "newCartID \<notin> set (map cartID (carts d))"
    by (simp add: cart_available_def)
  have u: "findUnique cartID newCartID (carts d @ [?c]) = Some ?c"
    by (rule findUnique_append_new[OF fresh]) simp
  from None put have put': "put_cart_item newCartID it now (cartBooks d) = Inr cbs"
    by (simp add: cart_of_def)
  have "addItemToCart_body fk uid it newCartID now d =
      Inr ((?c, filter (\<lambda>r. cb_cartID r = newCartID) cbs), d\<lparr> carts := carts d @ [?c], cartBooks := cbs \<rparr>)"
    using q by (simp add: addItemToCart_body_def find_or_create_cart_new[OF None avail] book put' u)
  then show ?thesis
    by (simp add: addItemToCart_def transaction_def catch_with_def)
next
  case (Some c)
  then have "c \<in> set (carts d)" by (rule findUnique_Some_key[THEN conjunct2])
  then have "cartID c \<in> set (map cartID (carts d))" by simp
  then obtain updatedCart where u: "findUnique cartID (cartID c) (carts d) = Some updatedCart"
    by (cases "findUnique cartID (cartID c) (carts d)") (simp_all add: findUnique_None_iff)
  from Some put have put': "put_cart_item (cartID c) it now (cartBooks d) = Inr cbs"
    by (simp add: cart_of_def)
  have "addItemToCart_body fk uid it newCartID now d =
      Inr ((updatedCart, filter (\<lambda>r. cb_cartID r = cartID updatedCart) cbs), d\<lparr> cartBooks := cbs \<rparr>)"
    using q by (simp add: addItemToCart_body_def find_or_create_cart_found[OF Some] book put' u)
  then show ?thesis
    by (simp add: addItemToCart_def transaction_def catch_with_def)
qed

lemma find_or_create_cart_available:
  assumes avail: "cart_available fk d uid newCartID"
  shows "\<exists>cart tx1. find_or_create_cart fk uid newCartID d = Inr (cart, tx1)"
proof (cases "findUnique cart_userID uid (carts d)")
  case None
  from find_or_create_cart_new[OF None avail] show ?thesis by simp
next
  case (Some c)
  from find_or_create_cart_found[OF Some] show ?thesis by simp
qed

lemma addItemToCart_reject:
  assumes avail: "cart_available fk d uid newCartID"
  shows "findUnique bookID (ci_bookID it) (books d) = None \<Longrightarrow>
           addItemToCart fk d uid it newCartID now = (Inl BookNotFound, d)"
    and "findUnique bookID (ci_bookID it) (books d) = Some book \<Longrightarrow>
         ci_quantity it > stockQuantity book \<Longrightarrow>
           addItemToCart fk d uid it newCartID now = (Inl (NotEnoughStock (stockQuantity book)), d)"
    and "findUnique bookID (ci_bookID it) (books d) = Some book \<Longrightarrow>
         ci_quantity it \<le> stockQuantity book \<Longrightarrow>
         put_cart_item (cart_of d uid newCartID) it now (cartBooks d) = Inl (Prisma P2020) \<Longrightarrow>
           addItemToCart fk d uid it newCartID now = (Inl (Prisma P2020), d)"
proof -
  from find_or_create_cart_available[OF avail] obtain cart where
    "\<exists>tx1. find_or_create_cart fk uid newCartID d = Inr (cart, tx1)" ..
  then obtain tx1 where f: "find_or_create_cart fk uid newCartID d = Inr (cart, tx1)" ..
  from find_or_create_cart_Inr[OF f] have b: "books tx1 = books d"
    and cb: "cartBooks tx1 = cartBooks d" and c: "cartID cart = cart_of d uid newCartID"
    by simp_all
  show "findUnique bookID (ci_bookID it) (books d) = None \<Longrightarrow>
           addItemToCart fk d uid it newCartID now = (Inl BookNotFound, d)"
    by (simp add: addItemToCart_def transaction_def catch_with_def addItemToCart_body_def
        addItemToCart_catch_def f b)
  show "findUnique bookID (ci_bookID it) (books d) = Some book \<Longrightarrow>
         ci_quantity it > stockQuantity book \<Longrightarrow>
           addItemToCart fk d uid it newCartID now = (Inl (NotEnoughStock (stockQuantity book)), d)"
    by (simp add: addItemToCart_def transaction_def catch_with_def addItemToCart_body_def
        addItemToCart_catch_def f b)
  show "findUnique bookID (ci_bookID it) (books d) = Some book \<Longrightarrow>
         ci_quantity it \<le> stockQuantity book \<Longrightarrow>
         put_cart_item (cart_of d uid newCartID) it now (cartBooks d) = Inl (Prisma P2020) \<Longrightarrow>
           addItemToCart fk d uid it newCartID now = (Inl (Prisma P2020), d)"
    by (simp add: addItemToCart_def transaction_def catch_with_def addItemToCart_body_def
        addItemToCart_catch_def f b cb c)
qed




lemma updated_cart_item:
  "findUnique cartID_bookID k rows = Some existing \<Longrightarrow>
   findUnique cartID_bookID k
     (map (\<lambda>r. if cartID_bookID r = k then r\<lparr> cb_quantity := n, isSelected := s \<rparr> else r) rows)
     = Some (existing\<lparr> cb_quantity := n, isSelected := s \<rparr>)"
  by (subst findUnique_map_update) (simp_all add: cartID_bookID_def)




text \<open>
  A call of \<open>addItemToCart\<close> with a quantity within the stock that does not store
  the sum: the cart holds 2147483647 copies of a book in stock 3 times, one more is within
  the stock, and the call fails with P2020 and stores nothing, for the sum does not fit
  the Int column.
\<close>
theorem addItemToCart_overflow_counterexample:
  "map_option cb_quantity
        (findUnique cartID_bookID (''cart-001'', ''book-002'') (cartBooks shop_full_cart))
        = Some 2147483647
   \<and> ci_bookID add_one_more = ''book-002'' \<and> ci_quantity add_one_more = 1
   \<and> map_option stockQuantity (findUnique bookID ''book-002'' (books shop_full_cart)) = Some 3
   \<and> addItemToCart True shop_full_cart ''user-001'' add_one_more ''cart-new'' 7
        = (Inl (Prisma P2020), shop_full_cart)"
  by (simp add: addItemToCart_def addItemToCart_body_def addItemToCart_catch_def
      find_or_create_cart_def create_cart_def put_cart_item_def transaction_def catch_with_def
      findUnique_def update_row_def create_row_def Int_column_def cartID_bookID_def
      shop_full_cart_def shop_def add_one_more_def)

text \<open>
  Claim C9, amended.  The stock check of \<open>addItemToCart\<close> looks at the quantity being
  added only.  When the user's cart has a row for the book and the quantity given is at
  most the stock of the book, then, if the old quantity plus the quantity given fits the
  Int column, the call succeeds and the row holds that sum, whatever the stock, and the
  book is unchanged; if the sum does not fit, the call fails with P2020 and the store is
  unchanged.  In \<open>shop\<close> the cart holds 2 of a book in stock 3 times, and adding 2 more
  stores 4.
\<close>
theorem addItemToCart_checks_added_quantity_only:
  assumes "findUnique cart_userID uid (carts d) = Some cart"
    and "findUnique cartID_bookID (cartID cart, ci_bookID it) (cartBooks d) = Some existing"
    and "findUnique bookID (ci_bookID it) (books d) = Some book"
    and "ci_quantity it \<le> stockQuantity book"
  shows "(- 2147483648 \<le> cb_quantity existing + ci_quantity it \<and> cb_quantity existing + ci_quantity it \<le> 2147483647 \<longrightarrow>
        \<not> isl (fst (addItemToCart fk d uid it newCartID now))
        \<and> findUnique cartID_bookID (cartID cart, ci_bookID it)
             (cartBooks (snd (addItemToCart fk d uid it newCartID now)))
           = Some (existing\<lparr> cb_quantity := cb_quantity existing + ci_quantity it,
                              isSelected := (case ci_isSelected it of
                                               None \<Rightarrow> True | Some b \<Rightarrow> b) \<rparr>)
        \<and> findUnique bookID (ci_bookID it) (books (snd (addItemToCart fk d uid it newCartID now)))
           = Some book)
     \<and> ((cb_quantity existing + ci_quantity it < - 2147483648 \<or> 2147483647 < cb_quantity existing + ci_quantity it) \<longrightarrow>
          addItemToCart fk d uid it newCartID now = (Inl (Prisma P2020), d))"
proof -
  from assms(1) have av: "cart_available fk d uid newCartID"
    by (simp add: cart_available_def)
  from assms(1) have co: "cart_of d uid newCartID = cartID cart"
    by (simp add: cart_of_def)
  from assms(2) have e: "findUnique cartID_bookID (cart_of d uid newCartID, ci_bookID it) (cartBooks d)
      = Some existing"
    by (simp only: co)
  have a: "\<not> isl (fst (addItemToCart fk d uid it newCartID now))
        \<and> findUnique cartID_bookID (cartID cart, ci_bookID it)
             (cartBooks (snd (addItemToCart fk d uid it newCartID now)))
           = Some (existing\<lparr> cb_quantity := cb_quantity existing + ci_quantity it,
                              isSelected := (case ci_isSelected it of
                                               None \<Rightarrow> True | Some b \<Rightarrow> b) \<rparr>)
        \<and> findUnique bookID (ci_bookID it) (books (snd (addItemToCart fk d uid it newCartID now)))
           = Some book"
    if i0: "- 2147483648 \<le> cb_quantity existing + ci_quantity it \<and> cb_quantity existing + ci_quantity it \<le> 2147483647"
  proof -
    from i0 have i: "Int_column (cb_quantity existing + ci_quantity it)" by (simp add: Int_column_def)
    note ok = addItemToCart_ok[OF av assms(3) assms(4) put_cart_item_existing[OF e i, of now]]
    from ok updated_cart_item[OF e] assms(3) show ?thesis
      by (simp add: co)
  qed
  have b: "addItemToCart fk d uid it newCartID now = (Inl (Prisma P2020), d)"
    if i0: "(cb_quantity existing + ci_quantity it < - 2147483648 \<or> 2147483647 < cb_quantity existing + ci_quantity it)"
  proof -
    from i0 have i: "\<not> Int_column (cb_quantity existing + ci_quantity it)" by (auto simp: Int_column_def)
    show ?thesis
      by (rule addItemToCart_reject(3)[OF av assms(3) assms(4) put_cart_item_overflow(1)[OF e i]])
  qed
  show ?thesis
  proof (rule conjI)
    show "- 2147483648 \<le> cb_quantity existing + ci_quantity it \<and> cb_quantity existing + ci_quantity it \<le> 2147483647 \<longrightarrow>
        \<not> isl (fst (addItemToCart fk d uid it newCartID now))
        \<and> findUnique cartID_bookID (cartID cart, ci_bookID it)
             (cartBooks (snd (addItemToCart fk d uid it newCartID now)))
           = Some (existing\<lparr> cb_quantity := cb_quantity existing + ci_quantity it,
                              isSelected := (case ci_isSelected it of
                                               None \<Rightarrow> True | Some b \<Rightarrow> b) \<rparr>)
        \<and> findUnique bookID (ci_bookID it) (books (snd (addItemToCart fk d uid it newCartID now)))
           = Some book"
      by (rule impI) (rule a)
    show "(cb_quantity existing + ci_quantity it < - 2147483648 \<or> 2147483647 < cb_quantity existing + ci_quantity it) \<longrightarrow>
          addItemToCart fk d uid it newCartID now = (Inl (Prisma P2020), d)"
      by (rule impI) (rule b)
  qed
qed

theorem addItemToCart_checks_added_quantity_only_witness:
  "\<not> isl (fst (addItemToCart True shop ''user-001'' add_two_more ''cart-new'' 7))
   \<and> map_option cb_quantity (findUnique cartID_bookID (''cart-001'', ''book-002'')
        (cartBooks (snd (addItemToCart True shop ''user-001'' add_two_more ''cart-new'' 7)))) = Some 4
   \<and> map_option stockQuantity (findUnique bookID ''book-002''
        (books (snd (addItemToCart True shop ''user-001'' add_two_more ''cart-new'' 7)))) = Some 3
   \<and> ci_quantity add_two_more = 2
   \<and> (3 :: int) < 4
   \<and> addItemToCart True shop_full_cart ''user-001'' add_two_more ''cart-new'' 7
        = (Inl (Prisma P2020), shop_full_cart)"
proof -
  let ?c = "\<lparr> cartID = ''cart-001'', cart_userID = ''user-001'' \<rparr>"
  let ?b2 = "\<lparr> bookID = ''book-002'', title = ''Nha Gia Kim'', price = 120000,
            stockQuantity = 3, soldNumber = 0 \<rparr>"
  let ?e = "\<lparr> cb_cartID = ''cart-001'', cb_bookID = ''book-002'', cb_quantity = 2,
            isSelected = False, addedAt = 5 \<rparr>"
  let ?full = "\<lparr> cb_cartID = ''cart-001'', cb_bookID = ''book-002'', cb_quantity = 2147483647,
            isSelected = True, addedAt = 5 \<rparr>"
  have h1: "findUnique cart_userID ''user-001'' (carts shop) = Some ?c"
    by (simp add: findUnique_def shop_def)
  have h2: "findUnique cartID_bookID (cartID ?c, ci_bookID add_two_more) (cartBooks shop) = Some ?e"
    by (simp add: findUnique_def shop_def add_two_more_def cartID_bookID_def)
  have h3: "findUnique bookID (ci_bookID add_two_more) (books shop) = Some ?b2"
    by (simp add: findUnique_def shop_def add_two_more_def)
  have h4: "ci_quantity add_two_more \<le> stockQuantity ?b2"
    by (simp add: add_two_more_def)
  have i: "- 2147483648 \<le> cb_quantity ?e + ci_quantity add_two_more \<and> cb_quantity ?e + ci_quantity add_two_more \<le> 2147483647"
    by (simp add: Int_column_def add_two_more_def)
  have g1: "findUnique cart_userID ''user-001'' (carts shop_full_cart) = Some ?c"
    by (simp add: findUnique_def shop_full_cart_def shop_def)
  have g2: "findUnique cartID_bookID (cartID ?c, ci_bookID add_two_more) (cartBooks shop_full_cart)
      = Some ?full"
    by (simp add: findUnique_def shop_full_cart_def shop_def add_two_more_def cartID_bookID_def)
  have g3: "findUnique bookID (ci_bookID add_two_more) (books shop_full_cart) = Some ?b2"
    by (simp add: findUnique_def shop_full_cart_def shop_def add_two_more_def)
  have j: "(cb_quantity ?full + ci_quantity add_two_more < - 2147483648 \<or> 2147483647 < cb_quantity ?full + ci_quantity add_two_more)"
    by (simp add: Int_column_def add_two_more_def)
  note a = addItemToCart_checks_added_quantity_only[OF h1 h2 h3 h4, of True "''cart-new''" 7,
      THEN conjunct1, THEN mp, OF i]
  note b = addItemToCart_checks_added_quantity_only[OF g1 g2 g3 h4, of True "''cart-new''" 7,
      THEN conjunct2, THEN mp, OF j]
  from a b show ?thesis by (simp add: add_two_more_def)
qed

section \<open>Properties of the registration\<close>

lemmas register_eval =
  register_def register_body_def through_global_def createUser_def createAuthor_def
  createAdmin_def create_authentication_def create_cart_def or_null_def
  catch_with_def findUnique_def create_row_def Let_def

text \<open>Whatever the input, the error of \<open>register\<close> is never "Email already exists".\<close>

lemma register_never_conflict:
  "fst (register fk hash d userData ids) \<noteq> Inl EmailAlreadyExists"
  unfolding register_def catch_with_def
  by (auto split: sum.splits prod.splits)

text \<open>
  Claim C5 asks that \<open>register\<close> fail with a conflict on an email that is already
  registered, and that the cart it creates for a new user refer to that user.  The code
  does neither.  Registering the email of \<open>shop\<close> again fails with "Registration
  failed", which the controller answers with 500 and not with 409: the \<open>catch\<close> of
  \<open>register\<close> has replaced "Email already exists".  Registering a new user in a
  store that does not enforce foreign keys succeeds and creates the user under the
  identifier the factory has drawn (\<open>uuid-3\<close>) and the cart under the one
  \<open>register\<close> has drawn (\<open>uuid-2\<close>), which names no user; the response carries
  \<open>uuid-2\<close> as well.  In a store that enforces them the same registration fails
  and creates nothing: the factory's row refers to an authentication row that the
  transaction has not committed.
\<close>
theorem register_diverges:
  "register True toy_hash shop register_again draw = (Inl RegistrationFailed, shop)
   \<and> register False toy_hash shop register_again draw = (Inl RegistrationFailed, shop)
   \<and> register_http_status RegistrationFailed = 500
   \<and> fst (register False toy_hash shop register_binh draw)
        = Inr \<lparr> au_id = ''uuid-2'', au_email = ''binh@example.com'', au_name = ''Binh'',
                au_role = role_user \<rparr>
   \<and> users (snd (register False toy_hash shop register_binh draw))
        = users shop @ [\<lparr> userID = ''uuid-3'', name = ''Binh'', phone = None, gender = None,
                           birthDate = None, user_authID = ''uuid-1'' \<rparr>]
   \<and> carts (snd (register False toy_hash shop register_binh draw))
        = carts shop @ [\<lparr> cartID = ''uuid-4'', cart_userID = ''uuid-2'' \<rparr>]
   \<and> findUnique userID ''uuid-2'' (users (snd (register False toy_hash shop register_binh draw)))
        = None
   \<and> register True toy_hash shop register_binh draw = (Inl RegistrationFailed, shop)"
  by (simp add: register_eval register_http_status_def shop_def register_again_def
      register_binh_def draw_def toy_hash_def)

end
